theory Spec2Isabelle
  imports Main
begin

section \<open>Runtime values and errors\<close>

text \<open>
  The export service is TypeScript. Its strings are modelled as \<open>string\<close>; only the ASCII
  characters \<open>= + - @ ; "\<close>, the apostrophe, the slash and the line feed are ever inspected.
  A value that is a string by its declared type but can be \<open>undefined\<close> at run time (an
  array read out of range, a property that is absent) is a \<open>string option\<close>, \<open>None\<close> being
  \<open>undefined\<close>.
\<close>

type_synonym cell = "string option"

text \<open>
  Failures are values. \<open>NotFound\<close> is the \<open>HttpsError("not-found", ...)\<close> thrown by the
  service itself, \<open>TypeError\<close> what the engine throws when a method is called on
  \<open>undefined\<close>, \<open>QueryFailure\<close> a rejection of a query of the data store and
  \<open>WriterError\<close> an \<open>error\<close> event of the archive writer (both carry the collaborator's
  own message).
\<close>

datatype error =
    NotFound string
  | TypeError
  | QueryFailure string
  | WriterError string

section \<open>The field encoder and the table builder\<close>

definition quote :: char where
  "quote = CHR 0x22"

definition apostrophe :: char where
  "apostrophe = CHR 0x27"

definition newline :: char where
  "newline = CHR 0x0A"

definition semicolon :: char where
  "semicolon = CHR 0x3B"

text \<open>\<open>String(v)\<close>, the coercion \<open>RegExp.prototype.test\<close> applies to its argument.\<close>

fun ToString :: "cell \<Rightarrow> string" where
  "ToString None = ''undefined''"
| "ToString (Some s) = s"

text \<open>\<open>/^[=+\-@]/.test(s)\<close>: the first character is one of the four.\<close>

fun test_formula :: "string \<Rightarrow> bool" where
  "test_formula [] = False"
| "test_formula (c # cs) = (c = CHR ''='' \<or> c = CHR ''+'' \<or> c = CHR ''-'' \<or> c = CHR ''@'')"

text \<open>\<open>/[;\n"]/.test(s)\<close>: some character is a semicolon, a line feed or a double quote.\<close>

fun test_special :: "string \<Rightarrow> bool" where
  "test_special [] = False"
| "test_special (c # cs) = (c = semicolon \<or> c = newline \<or> c = quote \<or> test_special cs)"

text \<open>\<open>s.replace(/"/g, '""')\<close>: every double quote is replaced by two.\<close>

fun replace_quotes :: "string \<Rightarrow> string" where
  "replace_quotes [] = []"
| "replace_quotes (c # cs) = (if c = quote then quote # quote # replace_quotes cs
                             else c # replace_quotes cs)"

text \<open>
  \<open>escapeCsvField\<close> as it runs: \<open>"'" + field\<close> and the two tests coerce \<open>field\<close> to a string,
  \<open>return field\<close> returns the value itself. \<open>field.replace\<close> is reached only after the second
  test succeeded; on \<open>undefined\<close> it would throw, so the result is an \<open>error + cell\<close>.
\<close>

definition escapeCsvField :: "cell \<Rightarrow> error + cell" where
  "escapeCsvField field =
     (let field1 = (if test_formula (ToString field)
                    then Some (apostrophe # ToString field) else field)
      in if test_special (ToString field1)
         then (case field1 of
                 None \<Rightarrow> Inl TypeError
               | Some s \<Rightarrow> Inr (Some (quote # replace_quotes s @ [quote])))
         else Inr field1)"

text \<open>
  \<open>xs.map(f)\<close> with a callback that can throw: the elements are visited in order and the
  first exception leaves the whole call.
\<close>

fun traverse :: "('a \<Rightarrow> error + 'b) \<Rightarrow> 'a list \<Rightarrow> error + 'b list" where
  "traverse f [] = Inr []"
| "traverse f (x # xs) =
     (case f x of
        Inl e \<Rightarrow> Inl e
      | Inr y \<Rightarrow> (case traverse f xs of Inl e \<Rightarrow> Inl e | Inr ys \<Rightarrow> Inr (y # ys)))"

text \<open>
  \<open>Array.prototype.join\<close>: the elements are separated by \<open>sep\<close>, and an element that is
  \<open>undefined\<close> contributes the empty string.
\<close>

fun element_text :: "cell \<Rightarrow> string" where
  "element_text None = []"
| "element_text (Some s) = s"

fun join :: "string \<Rightarrow> cell list \<Rightarrow> string" where
  "join sep [] = []"
| "join sep [x] = element_text x"
| "join sep (x # y # ys) = element_text x @ sep @ join sep (y # ys)"

text \<open>One line of a table: \<open>cells.map(escapeCsvField).join(";")\<close>.\<close>

definition csv_line :: "cell list \<Rightarrow> error + string" where
  "csv_line cells =
     (case traverse escapeCsvField cells of
        Inl e \<Rightarrow> Inl e
      | Inr escaped \<Rightarrow> Inr (join [semicolon] escaped))"

text \<open>
  \<open>createCsvBuffer\<close>: the header line, then one line per value in the order of \<open>values\<close>,
  joined by line feeds. The projection \<open>row\<close> may throw, which leaves \<open>createCsvBuffer\<close>.
  The buffer is the text itself (\<open>Buffer.from\<close> is its UTF-8 encoding).
\<close>

definition createCsvBuffer ::
  "string list \<Rightarrow> 'a list \<Rightarrow> ('a \<Rightarrow> error + cell list) \<Rightarrow> error + string" where
  "createCsvBuffer headers values row =
     (case csv_line (map Some headers) of
        Inl e \<Rightarrow> Inl e
      | Inr header_line \<Rightarrow>
          (case traverse (\<lambda>item. case row item of Inl e \<Rightarrow> Inl e | Inr cells \<Rightarrow> csv_line cells)
                  values of
             Inl e \<Rightarrow> Inl e
           | Inr lines \<Rightarrow> Inr (join [newline] (map Some (header_line # lines)))))"

section \<open>Language constructs used by the projections\<close>

text \<open>\<open>a?.f\<close>: \<open>undefined\<close> when \<open>a\<close> is, the property \<open>f\<close> of \<open>a\<close> otherwise.\<close>

definition chain :: "'a option \<Rightarrow> ('a \<Rightarrow> 'b option) \<Rightarrow> 'b option" where
  "chain a f = (case a of None \<Rightarrow> None | Some v \<Rightarrow> f v)"

text \<open>\<open>a ?? d\<close>.\<close>

definition coalesce :: "'a option \<Rightarrow> 'a \<Rightarrow> 'a" where
  "coalesce a d = (case a of None \<Rightarrow> d | Some v \<Rightarrow> v)"

text \<open>\<open>a?.m() ?? ""\<close> for a method \<open>m\<close> that returns a string.\<close>

definition optional_text :: "'a option \<Rightarrow> ('a \<Rightarrow> string) \<Rightarrow> cell" where
  "optional_text a m = Some (coalesce (map_option m a) [])"

text \<open>\<open>a.m()\<close> with no guard: a \<open>TypeError\<close> when \<open>a\<close> is \<open>undefined\<close>.\<close>

definition invoke :: "'a option \<Rightarrow> ('a \<Rightarrow> string) \<Rightarrow> error + cell" where
  "invoke a m = (case a of None \<Rightarrow> Inl TypeError | Some v \<Rightarrow> Inr (Some (m v)))"

text \<open>\<open>xs.at(0)\<close> and \<open>xs[i]\<close>: \<open>undefined\<close> out of range.\<close>

fun at0 :: "'a list \<Rightarrow> 'a option" where
  "at0 [] = None"
| "at0 (x # xs) = Some x"

definition index :: "'a list \<Rightarrow> nat \<Rightarrow> 'a option" where
  "index xs i = (if i < length xs then Some (xs ! i) else None)"

text \<open>
  \<open>s.split(sep)\<close> for a separator of one character: the pieces between the separators, so
  one piece more than there are separators and \<open>[""]\<close> for the empty string.
\<close>

fun split :: "char \<Rightarrow> string \<Rightarrow> string list" where
  "split sep [] = [[]]"
| "split sep (c # cs) =
     (if c = sep then [] # split sep cs
      else (case split sep cs of [] \<Rightarrow> [[c]] | p # ps \<Rightarrow> (c # p) # ps))"

text \<open>Sequencing of steps that can fail: the first failure leaves the function.\<close>

definition andThen :: "error + 'a \<Rightarrow> ('a \<Rightarrow> error + 'b) \<Rightarrow> error + 'b" where
  "andThen r f = (case r of Inl e \<Rightarrow> Inl e | Inr v \<Rightarrow> f v)"

section \<open>Clinical records\<close>

text \<open>
  The record types are those of the models package, with the fields the service reads.
  A field whose name another record has taken is prefixed (\<open>questionnaire_item\<close>,
  \<open>message_type\<close>, \<open>message_reference\<close>, \<open>component_code\<close>, \<open>component_valueQuantity\<close>,
  \<open>answer_valueCoding\<close>), and a name that is a keyword or a constant of the logic carries a
  prime (\<open>id'\<close>, \<open>text'\<close>, \<open>type'\<close>, \<open>value'\<close>, \<open>end'\<close>).
  A \<open>Date\<close> is represented by the text \<open>toISOString\<close> returns for it, a number by the text
  \<open>toString\<close> returns for it, and a localized text by the text \<open>localize\<close> returns.
\<close>

datatype date = Date (toISOString: string)

datatype number = Number (toString: string)

datatype LocalizedText = LocalizedText (localize: string)

text \<open>A document of the store: \<open>{ id, content }\<close>.\<close>

datatype 'a Document = Document (id': string) (content: 'a)

record FHIRCoding =
  display :: "string option"
  code :: "string option"

record FHIRQuestionnaireItemAnswerOption =
  valueCoding :: "FHIRCoding option"

datatype FHIRQuestionnaireItem =
  FHIRQuestionnaireItem
    (linkId: "string option")
    (text': "string option")
    (type': "string option")
    (answerOption: "FHIRQuestionnaireItemAnswerOption list option")
    (item: "FHIRQuestionnaireItem list option")

record FHIRQuestionnaire =
  questionnaire_item :: "FHIRQuestionnaireItem list option"

text \<open>
  Appointments and symptom scores: the fields the declared type requires (\<open>status\<close>,
  \<open>created\<close>, \<open>start\<close>, \<open>end\<close>; \<open>overallScore\<close>, \<open>dizzinessScore\<close>, \<open>date\<close>) are optional
  here as well, a record of the store being an object on which any property can be absent.
\<close>

record FHIRAppointment =
  status :: "string option"
  created :: "date option"
  start :: "date option"
  end' :: "date option"

record SymptomScore =
  overallScore :: "number option"
  physicalLimitsScore :: "number option"
  socialLimitsScore :: "number option"
  symptomFrequencyScore :: "number option"
  qualityOfLifeScore :: "number option"
  dizzinessScore :: "number option"
  date :: "date option"
  questionnaireResponseId :: "string option"

record UserMessage =
  message_type :: string
  title :: LocalizedText
  action :: "string option"
  message_reference :: "string option"
  creationDate :: date
  completionDate :: "date option"
  dueDate :: "date option"

record FHIRQuantity =
  value' :: "number option"
  unit :: "string option"

record FHIRReference =
  reference :: "string option"

record FHIRTimingRepeat =
  frequency :: "number option"

record FHIRTiming =
  repeat :: "FHIRTimingRepeat option"

record FHIRDosageDoseAndRate =
  doseQuantity :: "FHIRQuantity option"

record FHIRDosage =
  doseAndRate :: "FHIRDosageDoseAndRate list option"
  timing :: "FHIRTiming option"

record FHIRMedicationRequest =
  medicationReference :: "FHIRReference option"
  dosageInstruction :: "FHIRDosage list option"

record FHIRCodeableConcept =
  coding :: "FHIRCoding list option"

record FHIRObservationComponent =
  component_code :: FHIRCodeableConcept
  component_valueQuantity :: "FHIRQuantity option"

record FHIRObservation =
  component :: "FHIRObservationComponent list option"
  valueQuantity :: "FHIRQuantity option"
  effectiveDateTime :: "date option"

record FHIRQuestionnaireResponseItemAnswer =
  answer_valueCoding :: "FHIRCoding option"

record FHIRQuestionnaireResponseItem =
  answer :: "FHIRQuestionnaireResponseItemAnswer list option"

record FHIRQuestionnaireResponse =
  questionnaire :: "string option"
  leafResponseItem :: "string \<Rightarrow> FHIRQuestionnaireResponseItem option"
  authored :: "date option"

record User =
  organization :: "string option"

section \<open>Collaborators\<close>

text \<open>
  Constants of the models package and of the questionnaire factory, which the service
  imports: the observation collections (\<open>Object.values(UserObservationCollection)\<close>) with
  the blood pressure collection among them, the two LOINC codes, and the URL and link
  ids of the KCCQ questionnaire. They are parameters of the model.
\<close>

record Constants =
  observationCollections :: "string list"
  bloodPressure :: string
  systolicBloodPressure :: string
  diastolicBloodPressure :: string
  kccqUrl :: string
  question1a :: string
  question1b :: string
  question1c :: string
  question2 :: string
  question3 :: string
  question4 :: string
  question5 :: string
  question6 :: string
  question7 :: string
  question8a :: string
  question8b :: string
  question8c :: string
  question9 :: string

text \<open>
  The user service and the database service. A call either rejects, with a message of the
  store's own, or returns its documents; the queries are those the service issues.
\<close>

type_synonym 'a query = "string + 'a"

record Services =
  getUser :: "string \<Rightarrow> User Document option query"
  getAllPatients :: "User Document list query"
  questionnaires :: "FHIRQuestionnaire Document list query"
  userAppointments :: "string \<Rightarrow> FHIRAppointment Document list query"
  userMedicationRequests :: "string \<Rightarrow> FHIRMedicationRequest Document list query"
  userMessages :: "string \<Rightarrow> UserMessage Document list query"
  userObservations :: "string \<Rightarrow> string \<Rightarrow> FHIRObservation Document list query"
  userQuestionnaireResponses :: "string \<Rightarrow> FHIRQuestionnaireResponse Document list query"
  userSymptomScores :: "string \<Rightarrow> SymptomScore Document list query"

text \<open>\<open>await\<close> of a call of a collaborator: its rejection is thrown.\<close>

definition await :: "'a query \<Rightarrow> error + 'a" where
  "await q = (case q of Inl message \<Rightarrow> Inl (QueryFailure message) | Inr v \<Rightarrow> Inr v)"

text \<open>
  The archive in progress is the list of its entries, name and buffer, in the order of the
  calls of \<open>archiver.append\<close>.
\<close>

type_synonym archive = "(string \<times> string) list"

definition append :: "archive \<Rightarrow> string \<Rightarrow> string \<Rightarrow> archive" where
  "append archiver buffer name = archiver @ [(name, buffer)]"

text \<open>
  The archive writer (the \<open>archiver\<close> package) is known by the events it emits: those
  emitted while the generator runs, and those emitted once \<open>finalize\<close> has been called on
  the entries appended. A rejection of \<open>finalize\<close> itself acts as an \<open>error\<close> event.
\<close>

datatype event = Data string | End | Error string

record Writer =
  during_generation :: "event list"
  after_finalize :: "archive \<Rightarrow> event list"

section \<open>The per-category projections\<close>

subsection \<open>Questionnaires\<close>

text \<open>
  \<open>leafItems\<close>: an item whose \<open>item\<close> is absent or of length zero is returned alone;
  otherwise the leaves of its children, child after child (\<open>flatMap\<close>).
\<close>

fun leafItems :: "FHIRQuestionnaireItem \<Rightarrow> FHIRQuestionnaireItem list" where
  "leafItems (FHIRQuestionnaireItem l t ty ao None) = [FHIRQuestionnaireItem l t ty ao None]"
| "leafItems (FHIRQuestionnaireItem l t ty ao (Some children)) =
     (if length children = 0 then [FHIRQuestionnaireItem l t ty ao (Some children)]
      else concat (map leafItems children))"

definition questionnaireItems :: "FHIRQuestionnaire Document \<Rightarrow> FHIRQuestionnaireItem list" where
  "questionnaireItems q =
     concat (map leafItems (coalesce (questionnaire_item (content q)) []))"

definition optionText :: "FHIRQuestionnaireItemAnswerOption \<Rightarrow> string" where
  "optionText option =
     coalesce (chain (valueCoding option) display) [] @ '' ('' @
     coalesce (chain (valueCoding option) code) [] @ '')''"

definition questionnaireRow :: "FHIRQuestionnaireItem \<Rightarrow> error + cell list" where
  "questionnaireRow v =
     (let options = join ''|'' (map (\<lambda>option. Some (optionText option))
                                  (coalesce (answerOption v) []))
      in Inr [Some (coalesce (linkId v) []),
              Some (coalesce (text' v) []),
              Some (coalesce (type' v) []),
              Some options])"

fun addQuestionnaireTables :: "FHIRQuestionnaire Document list \<Rightarrow> archive \<Rightarrow> error + archive" where
  "addQuestionnaireTables [] archiver = Inr archiver"
| "addQuestionnaireTables (q # rest) archiver =
     andThen (createCsvBuffer [''linkId'', ''text'', ''type'', ''options'']
                (questionnaireItems q) questionnaireRow)
       (\<lambda>buffer. addQuestionnaireTables rest
          (append archiver buffer (''questionnaire_'' @ id' q @ ''.csv'')))"

definition addQuestionnaires :: "Services \<Rightarrow> archive \<Rightarrow> error + archive" where
  "addQuestionnaires services archiver =
     andThen (await (questionnaires services))
       (\<lambda>found. addQuestionnaireTables found archiver)"

subsection \<open>Appointments\<close>

definition appointmentRow :: "FHIRAppointment Document \<Rightarrow> error + cell list" where
  "appointmentRow v =
     andThen (invoke (created (content v)) toISOString) (\<lambda>created_cell.
     andThen (invoke (start (content v)) toISOString) (\<lambda>start_cell.
     andThen (invoke (end' (content v)) toISOString) (\<lambda>end_cell.
       Inr [Some (id' v), status (content v), created_cell, start_cell, end_cell])))"

definition addUserAppointments :: "Services \<Rightarrow> string \<Rightarrow> archive \<Rightarrow> error + archive" where
  "addUserAppointments services userId archiver =
     andThen (await (userAppointments services userId)) (\<lambda>appointments.
     andThen (createCsvBuffer [''id'', ''status'', ''created'', ''start'', ''end'']
                appointments appointmentRow) (\<lambda>buffer.
       Inr (append archiver buffer (userId @ ''/appointments.csv''))))"

subsection \<open>Messages\<close>

definition messageRow :: "UserMessage Document \<Rightarrow> error + cell list" where
  "messageRow v =
     Inr [Some (id' v),
          Some (message_type (content v)),
          Some (localize (title (content v))),
          Some (coalesce (action (content v)) []),
          Some (coalesce (message_reference (content v)) []),
          Some (toISOString (creationDate (content v))),
          optional_text (completionDate (content v)) toISOString,
          optional_text (dueDate (content v)) toISOString]"

definition addUserMessages :: "Services \<Rightarrow> string \<Rightarrow> archive \<Rightarrow> error + archive" where
  "addUserMessages services userId archiver =
     andThen (await (userMessages services userId)) (\<lambda>messages.
     andThen (createCsvBuffer
                [''id'', ''type'', ''title'', ''action'', ''reference'', ''creationDate'',
                 ''completionDate'', ''dueDate'']
                messages messageRow) (\<lambda>buffer.
       Inr (append archiver buffer (userId @ ''/messages.csv''))))"

subsection \<open>Medication requests\<close>

definition referenceParts :: "FHIRMedicationRequest \<Rightarrow> string list" where
  "referenceParts request =
     split CHR ''/'' (coalesce (chain (medicationReference request) reference) [])"

definition medicationRequestRow :: "FHIRMedicationRequest Document \<Rightarrow> error + cell list" where
  "medicationRequestRow v =
     (let parts = referenceParts (content v);
          quantity = chain (chain (chain (chain (dosageInstruction (content v)) at0)
                       doseAndRate) at0) doseQuantity;
          frequency' = chain (chain (chain (chain (dosageInstruction (content v)) at0)
                       timing) repeat) frequency
      in Inr [Some (id' v),
              index parts 1,
              index parts 3,
              optional_text (chain quantity value') toString,
              Some (coalesce (chain quantity unit) []),
              optional_text frequency' toString])"

definition addUserMedicationRequests :: "Services \<Rightarrow> string \<Rightarrow> archive \<Rightarrow> error + archive" where
  "addUserMedicationRequests services userId archiver =
     andThen (await (userMedicationRequests services userId)) (\<lambda>medications.
     andThen (createCsvBuffer
                [''id'', ''medicationCode (RxNorm)'', ''drugCode (RxNorm)'', ''quantity'',
                 ''quantityUnit'', ''frequencyPerDay'']
                medications medicationRequestRow) (\<lambda>buffer.
       Inr (append archiver buffer (userId @ ''/medicationRequests.csv''))))"

subsection \<open>Observations\<close>

text \<open>
  \<open>components?.find(c => c.code.coding?.some(coding => coding.code === loinc))\<close>: the first
  component one of whose codings has that code.
\<close>

definition findComponent :: "FHIRObservation \<Rightarrow> string \<Rightarrow> FHIRObservationComponent option" where
  "findComponent observation loinc =
     chain (component observation)
       (List.find (\<lambda>c. case coding (component_code c) of
                          None \<Rightarrow> False
                        | Some codings \<Rightarrow> list_ex (\<lambda>cd. code cd = Some loinc) codings))"

definition bloodPressureRow :: "Constants \<Rightarrow> FHIRObservation Document \<Rightarrow> error + cell list" where
  "bloodPressureRow constants v =
     (let systolicComponent = findComponent (content v) (systolicBloodPressure constants);
          diastolicComponent = findComponent (content v) (diastolicBloodPressure constants)
      in Inr [Some (id' v),
              optional_text (chain (chain systolicComponent component_valueQuantity) value')
                toString,
              Some (coalesce (chain (chain systolicComponent component_valueQuantity) unit) []),
              optional_text (chain (chain diastolicComponent component_valueQuantity) value')
                toString,
              Some (coalesce (chain (chain diastolicComponent component_valueQuantity) unit) []),
              optional_text (effectiveDateTime (content v)) toISOString])"

definition observationRow :: "FHIRObservation Document \<Rightarrow> error + cell list" where
  "observationRow v =
     Inr [Some (id' v),
          optional_text (chain (valueQuantity (content v)) value') toString,
          Some (coalesce (chain (valueQuantity (content v)) unit) []),
          optional_text (effectiveDateTime (content v)) toISOString]"

definition addUserObservations ::
  "Constants \<Rightarrow> Services \<Rightarrow> string \<Rightarrow> string \<Rightarrow> archive \<Rightarrow> error + archive" where
  "addUserObservations constants services userId collection archiver =
     andThen (await (userObservations services userId collection)) (\<lambda>observations.
     andThen (if collection = bloodPressure constants
              then createCsvBuffer
                     [''id'', ''systolicValue'', ''systolicUnit'', ''diastolicValue'',
                      ''diastolicUnit'', ''effectiveDateTime'']
                     observations (bloodPressureRow constants)
              else createCsvBuffer [''id'', ''value'', ''unit'', ''effectiveDateTime'']
                     observations observationRow) (\<lambda>buffer.
       Inr (append archiver buffer (userId @ ''/'' @ collection @ ''.csv''))))"

subsection \<open>Questionnaire responses\<close>

definition answerCode :: "FHIRQuestionnaireResponse \<Rightarrow> string \<Rightarrow> cell" where
  "answerCode response question =
     Some (coalesce (chain (chain (chain (chain (leafResponseItem response question) answer) at0)
             answer_valueCoding) code) [])"

definition questionnaireResponseRow ::
  "Constants \<Rightarrow> FHIRQuestionnaireResponse Document \<Rightarrow> error + cell list" where
  "questionnaireResponseRow constants v =
     Inr [Some (id' v),
          answerCode (content v) (question1a constants),
          answerCode (content v) (question1b constants),
          answerCode (content v) (question1c constants),
          answerCode (content v) (question2 constants),
          answerCode (content v) (question3 constants),
          answerCode (content v) (question4 constants),
          answerCode (content v) (question5 constants),
          answerCode (content v) (question6 constants),
          answerCode (content v) (question7 constants),
          answerCode (content v) (question8a constants),
          answerCode (content v) (question8b constants),
          answerCode (content v) (question8c constants),
          answerCode (content v) (question9 constants),
          optional_text (authored (content v)) toISOString]"

definition addUserQuestionnaireResponses ::
  "Constants \<Rightarrow> Services \<Rightarrow> string \<Rightarrow> archive \<Rightarrow> error + archive" where
  "addUserQuestionnaireResponses constants services userId archiver =
     andThen (await (userQuestionnaireResponses services userId)) (\<lambda>questionnaireResponses.
       (let kccqResponses =
              filter (\<lambda>response. questionnaire (content response) = Some (kccqUrl constants))
                questionnaireResponses
        in andThen (createCsvBuffer
                      [''id'', ''q1a'', ''q1b'', ''q1c'', ''q2'', ''q3'', ''q4'', ''q5'', ''q6'',
                       ''q7'', ''q8a'', ''q8b'', ''q8c'', ''q9'', ''authored'']
                      kccqResponses (questionnaireResponseRow constants)) (\<lambda>buffer.
             Inr (append archiver buffer (userId @ ''/questionnaireResponses_kccq.csv'')))))"

subsection \<open>Symptom scores\<close>

definition symptomScoreRow :: "SymptomScore Document \<Rightarrow> error + cell list" where
  "symptomScoreRow v =
     andThen (invoke (overallScore (content v)) toString) (\<lambda>overall_cell.
     andThen (invoke (dizzinessScore (content v)) toString) (\<lambda>dizziness_cell.
     andThen (invoke (date (content v)) toISOString) (\<lambda>date_cell.
       Inr [Some (id' v),
            overall_cell,
            optional_text (physicalLimitsScore (content v)) toString,
            optional_text (socialLimitsScore (content v)) toString,
            optional_text (symptomFrequencyScore (content v)) toString,
            optional_text (qualityOfLifeScore (content v)) toString,
            dizziness_cell,
            date_cell,
            Some (coalesce (questionnaireResponseId (content v)) [])])))"

definition addUserSymptomScores :: "Services \<Rightarrow> string \<Rightarrow> archive \<Rightarrow> error + archive" where
  "addUserSymptomScores services userId archiver =
     andThen (await (userSymptomScores services userId)) (\<lambda>symptomScores.
     andThen (createCsvBuffer
                [''id'', ''overallScore'', ''physicalLimitsScore'', ''socialLimitsScore'',
                 ''symptomFrequencyScore'', ''qualityOfLifeScore'', ''dizzinessScore'', ''date'',
                 ''questionnaireResponseId'']
                symptomScores symptomScoreRow) (\<lambda>buffer.
       Inr (append archiver buffer (userId @ ''/symptomScores.csv''))))"

section \<open>Archive assembly and the three exports\<close>

text \<open>
  \<open>createZipBuffer\<close>. The promise settles once: with the concatenated chunks at the first
  \<open>end\<close> event, with the error at the first \<open>error\<close> event or when the generator throws,
  whichever comes first. \<open>None\<close> is a promise that stays pending. \<open>finalize\<close> is called
  only when the generator has returned.
\<close>

record zip_state =
  chunks :: "string list"
  settled :: "(error + string) option"

definition settle :: "error + string \<Rightarrow> zip_state \<Rightarrow> zip_state" where
  "settle outcome st = (case settled st of None \<Rightarrow> st\<lparr>settled := Some outcome\<rparr> | Some _ \<Rightarrow> st)"

fun on_event :: "zip_state \<Rightarrow> event \<Rightarrow> zip_state" where
  "on_event st (Data chunk) = st\<lparr>chunks := chunks st @ [chunk]\<rparr>"
| "on_event st End = settle (Inr (concat (chunks st))) st"
| "on_event st (Error message) = settle (Inl (WriterError message)) st"

definition createZipBuffer ::
  "(archive \<Rightarrow> error + archive) \<Rightarrow> Writer \<Rightarrow> (error + string) option" where
  "createZipBuffer generate writer =
     (let st = foldl on_event \<lparr>chunks = [], settled = None\<rparr> (during_generation writer)
      in case generate [] of
           Inl e \<Rightarrow> settled (settle (Inl e) st)
         | Inr archive \<Rightarrow> settled (foldl on_event st (after_finalize writer archive)))"

text \<open>
  The members of \<open>Promise.all\<close> for one user, in the order of the array. Each awaits one
  query and then appends one entry. In the model they run in that order, and the first
  failure in that order is the one reported.
\<close>

definition userBranches ::
  "Constants \<Rightarrow> Services \<Rightarrow> string \<Rightarrow> (archive \<Rightarrow> error + archive) list" where
  "userBranches constants services userId =
     [addUserAppointments services userId,
      addUserMedicationRequests services userId,
      addUserMessages services userId]
     @ map (\<lambda>collection. addUserObservations constants services userId collection)
         (observationCollections constants)
     @ [addUserQuestionnaireResponses constants services userId,
        addUserSymptomScores services userId]"

fun promise_all :: "(archive \<Rightarrow> error + archive) list \<Rightarrow> archive \<Rightarrow> error + archive" where
  "promise_all [] archiver = Inr archiver"
| "promise_all (branch # branches) archiver = andThen (branch archiver) (promise_all branches)"

fun forEachUser :: "Constants \<Rightarrow> Services \<Rightarrow> string list \<Rightarrow> archive \<Rightarrow> error + archive" where
  "forEachUser constants services [] archiver = Inr archiver"
| "forEachUser constants services (userId # userIds) archiver =
     andThen (promise_all (userBranches constants services userId) archiver)
       (forEachUser constants services userIds)"

text \<open>The generator \<open>createPatientsZipBuffer\<close> hands to \<open>createZipBuffer\<close>.\<close>

definition generatePatients ::
  "Constants \<Rightarrow> Services \<Rightarrow> string list \<Rightarrow> archive \<Rightarrow> error + archive" where
  "generatePatients constants services userIds archiver =
     andThen (addQuestionnaires services archiver) (forEachUser constants services userIds)"

definition createPatientsZipBuffer ::
  "Constants \<Rightarrow> Services \<Rightarrow> Writer \<Rightarrow> string list \<Rightarrow> (error + string) option" where
  "createPatientsZipBuffer constants services writer userIds =
     createZipBuffer (generatePatients constants services userIds) writer"

definition exportPatientDataForUser ::
  "Constants \<Rightarrow> Services \<Rightarrow> Writer \<Rightarrow> string \<Rightarrow> (error + string) option" where
  "exportPatientDataForUser constants services writer userId =
     (case await (getUser services userId) of
        Inl e \<Rightarrow> Some (Inl e)
      | Inr None \<Rightarrow> Some (Inl (NotFound (''Patient with ID '' @ userId @ '' not found'')))
      | Inr (Some patient) \<Rightarrow> createPatientsZipBuffer constants services writer [id' patient])"

definition exportPatientDataForOrganization ::
  "Constants \<Rightarrow> Services \<Rightarrow> Writer \<Rightarrow> string \<Rightarrow> (error + string) option" where
  "exportPatientDataForOrganization constants services writer organizationId =
     (case await (getAllPatients services) of
        Inl e \<Rightarrow> Some (Inl e)
      | Inr patients \<Rightarrow>
          (let filteredPatients =
                 filter (\<lambda>patient. organization (content patient) = Some organizationId) patients
           in createPatientsZipBuffer constants services writer (map id' filteredPatients)))"

definition exportPatientDataForAll ::
  "Constants \<Rightarrow> Services \<Rightarrow> Writer \<Rightarrow> (error + string) option" where
  "exportPatientDataForAll constants services writer =
     (case await (getAllPatients services) of
        Inl e \<Rightarrow> Some (Inl e)
      | Inr patients \<Rightarrow> createPatientsZipBuffer constants services writer (map id' patients))"

section \<open>Reading a table back\<close>

text \<open>
  The specification states what a table contains through a delimiter-aware parser. This is
  such a parser, written after the specification's words and not part of the service: cells
  are separated by semicolons and rows by line feeds; a cell that starts with a double quote
  runs to the closing double quote, semicolons and line feeds inside it belong to the cell,
  and two double quotes inside it stand for one. The result is the list of rows, each the
  list of its cells.
\<close>

datatype parse_mode = FieldStart | Unquoted | Quoted | QuoteSeen

fun add_char :: "char \<Rightarrow> string list list \<Rightarrow> string list list" where
  "add_char c [] = [[[c]]]"
| "add_char c ([] # rows) = [[c]] # rows"
| "add_char c ((f # fs) # rows) = ((c # f) # fs) # rows"

fun new_cell :: "string list list \<Rightarrow> string list list" where
  "new_cell [] = [[[], []]]"
| "new_cell (r # rows) = ([] # r) # rows"

definition new_row :: "string list list \<Rightarrow> string list list" where
  "new_row rows = [[]] # rows"

fun parse :: "parse_mode \<Rightarrow> string \<Rightarrow> string list list" where
  "parse m [] = [[[]]]"
| "parse FieldStart (c # cs) =
     (if c = quote then parse Quoted cs
      else if c = semicolon then new_cell (parse FieldStart cs)
      else if c = newline then new_row (parse FieldStart cs)
      else add_char c (parse Unquoted cs))"
| "parse Unquoted (c # cs) =
     (if c = semicolon then new_cell (parse FieldStart cs)
      else if c = newline then new_row (parse FieldStart cs)
      else add_char c (parse Unquoted cs))"
| "parse Quoted (c # cs) =
     (if c = quote then parse QuoteSeen cs
      else add_char c (parse Quoted cs))"
| "parse QuoteSeen (c # cs) =
     (if c = quote then add_char c (parse Quoted cs)
      else if c = semicolon then new_cell (parse FieldStart cs)
      else if c = newline then new_row (parse FieldStart cs)
      else add_char c (parse Unquoted cs))"

definition parse_csv :: "string \<Rightarrow> string list list" where
  "parse_csv buffer = parse FieldStart buffer"

text \<open>
  What a cell is read back as: the string behind the apostrophe the encoder puts in front
  of \<open>= + - @\<close>, the empty string for \<open>undefined\<close>. A row with no cell is written as an
  empty line, which reads back as one empty cell.
\<close>

definition guarded :: "string \<Rightarrow> string" where
  "guarded s = (if test_formula s then apostrophe # s else s)"

fun cell_value :: "cell \<Rightarrow> string" where
  "cell_value None = []"
| "cell_value (Some s) = guarded s"

definition row_value :: "cell list \<Rightarrow> string list" where
  "row_value cells = (if cells = [] then [[]] else map cell_value cells)"

text \<open>The projection of a table whose records are rows of strings already.\<close>

definition string_cells :: "string list \<Rightarrow> error + cell list" where
  "string_cells r = Inr (map Some r)"

text \<open>Auxiliary notions of the proofs: the text of a cell and of a line in the table.\<close>

fun at_delimiter :: "string \<Rightarrow> bool" where
  "at_delimiter [] = True"
| "at_delimiter (c # cs) = (c = semicolon \<or> c = newline)"

definition cell_text :: "cell \<Rightarrow> string" where
  "cell_text c = (if test_special (cell_value c)
                  then quote # replace_quotes (cell_value c) @ [quote] else cell_value c)"

definition line_text :: "cell list \<Rightarrow> string" where
  "line_text cells = join [semicolon] (map (\<lambda>c. Some (cell_text c)) cells)"

section \<open>Item trees\<close>

text \<open>
  The nodes of an item tree depth first, a node before its children and the children in
  the order of the \<open>item\<close> list; a leaf is a node with no child.
\<close>

definition children :: "FHIRQuestionnaireItem \<Rightarrow> FHIRQuestionnaireItem list" where
  "children node = (case item node of None \<Rightarrow> [] | Some cs \<Rightarrow> cs)"

fun preorder :: "FHIRQuestionnaireItem \<Rightarrow> FHIRQuestionnaireItem list" where
  "preorder (FHIRQuestionnaireItem l t ty ao ch) =
     FHIRQuestionnaireItem l t ty ao ch
       # (case ch of None \<Rightarrow> [] | Some cs \<Rightarrow> concat (map preorder cs))"

definition is_leaf :: "FHIRQuestionnaireItem \<Rightarrow> bool" where
  "is_leaf node = (children node = [])"

text \<open>The tree \<open>A(children: A1, A2(children: A2a))\<close>, the nodes named by their link ids.\<close>

definition leaf_named :: "string \<Rightarrow> FHIRQuestionnaireItem" where
  "leaf_named name = FHIRQuestionnaireItem (Some name) None None None None"

definition node_named :: "string \<Rightarrow> FHIRQuestionnaireItem list \<Rightarrow> FHIRQuestionnaireItem" where
  "node_named name cs = FHIRQuestionnaireItem (Some name) None None None (Some cs)"

definition example_tree :: FHIRQuestionnaireItem where
  "example_tree =
     node_named ''A'' [leaf_named ''A1'', node_named ''A2'' [leaf_named ''A2a'']]"

section \<open>Example records\<close>

text \<open>A medication request whose reference has two segments.\<close>

definition example_request :: "FHIRMedicationRequest Document" where
  "example_request =
     Document ''m1''
       \<lparr>medicationReference = Some \<lparr>reference = Some ''medications/203160''\<rparr>,
        dosageInstruction = None\<rparr>"

text \<open>A medication request whose reference has four segments, with a dosage.\<close>

definition example_request_4 :: "FHIRMedicationRequest Document" where
  "example_request_4 =
     Document ''m2''
       \<lparr>medicationReference = Some \<lparr>reference = Some ''medications/203160/drugs/20352''\<rparr>,
        dosageInstruction =
          Some [\<lparr>doseAndRate =
                   Some [\<lparr>doseQuantity =
                            Some \<lparr>value' = Some (Number ''10''), unit = Some ''mg''\<rparr>\<rparr>],
                 timing = Some \<lparr>repeat = Some \<lparr>frequency = Some (Number ''2'')\<rparr>\<rparr>\<rparr>]\<rparr>"

text \<open>An appointment with every field, and the same appointment with no \<open>status\<close>.\<close>

definition example_appointment :: "FHIRAppointment Document" where
  "example_appointment =
     Document ''a1''
       \<lparr>status = Some ''booked'',
        created = Some (Date ''2025-01-05T21:41:30.000Z''),
        start = Some (Date ''2025-02-01T09:00:00.000Z''),
        end' = Some (Date ''2025-02-01T09:30:00.000Z'')\<rparr>"

definition example_appointment_no_status :: "FHIRAppointment Document" where
  "example_appointment_no_status =
     Document ''a1'' ((content example_appointment)\<lparr>status := None\<rparr>)"

definition example_score :: "SymptomScore Document" where
  "example_score =
     Document ''s1''
       \<lparr>overallScore = Some (Number ''62.5''),
        physicalLimitsScore = None,
        socialLimitsScore = None,
        symptomFrequencyScore = None,
        qualityOfLifeScore = None,
        dizzinessScore = Some (Number ''1''),
        date = Some (Date ''2025-01-05T21:41:30.000Z''),
        questionnaireResponseId = None\<rparr>"

text \<open>
  Five patients whose organizations differ by case, by a suffix and by being absent; a
  store that answers every query; a store whose symptom score query rejects; a writer that
  emits one chunk per entry and then \<open>end\<close>; and a writer that emits an error.
\<close>

definition example_patients :: "User Document list" where
  "example_patients =
     [Document ''p0'' \<lparr>organization = Some ''stanford''\<rparr>,
      Document ''p1'' \<lparr>organization = Some ''jhu''\<rparr>,
      Document ''p2'' \<lparr>organization = Some ''Stanford''\<rparr>,
      Document ''p3'' \<lparr>organization = Some ''stanford2''\<rparr>,
      Document ''p4'' \<lparr>organization = None\<rparr>]"

definition example_constants :: Constants where
  "example_constants =
     \<lparr>observationCollections = [''bloodPressureObservations'', ''bodyWeightObservations''],
      bloodPressure = ''bloodPressureObservations'',
      systolicBloodPressure = ''8480-6'',
      diastolicBloodPressure = ''8462-4'',
      kccqUrl = ''questionnaire/kccq'',
      question1a = ''1a'', question1b = ''1b'', question1c = ''1c'', question2 = ''2'',
      question3 = ''3'', question4 = ''4'', question5 = ''5'', question6 = ''6'',
      question7 = ''7'', question8a = ''8a'', question8b = ''8b'', question8c = ''8c'',
      question9 = ''9''\<rparr>"

definition example_services :: Services where
  "example_services =
     \<lparr>getUser = (\<lambda>userId. Inr (List.find (\<lambda>p. id' p = userId) example_patients)),
      getAllPatients = Inr example_patients,
      questionnaires = Inr [Document ''0'' \<lparr>questionnaire_item = Some [example_tree]\<rparr>],
      userAppointments = (\<lambda>userId. Inr [example_appointment]),
      userMedicationRequests = (\<lambda>userId. Inr [example_request]),
      userMessages = (\<lambda>userId. Inr []),
      userObservations = (\<lambda>userId collection. Inr []),
      userQuestionnaireResponses = (\<lambda>userId. Inr []),
      userSymptomScores = (\<lambda>userId. Inr [example_score])\<rparr>"

definition failing_services :: Services where
  "failing_services = example_services\<lparr>userSymptomScores := (\<lambda>userId. Inl ''unavailable'')\<rparr>"

definition example_writer :: Writer where
  "example_writer =
     \<lparr>during_generation = [],
      after_finalize = (\<lambda>archive. map (\<lambda>entry. Data (fst entry)) archive @ [End])\<rparr>"

definition failing_writer :: Writer where
  "failing_writer =
     \<lparr>during_generation = [],
      after_finalize = (\<lambda>archive. [Data ''PK'', Error ''disk full'', End])\<rparr>"

text \<open>A store one of whose appointments has no \<open>created\<close>.\<close>

definition incomplete_services :: Services where
  "incomplete_services =
     example_services
       \<lparr>userAppointments :=
          (\<lambda>userId. Inr [example_appointment,
                          Document ''a2'' ((content example_appointment)\<lparr>created := None\<rparr>)])\<rparr>"

section \<open>Archive layout\<close>

text \<open>
  The names of the entries: one per questionnaire, and per user one per category, the
  observation collections between the messages and the questionnaire responses.
\<close>

definition questionnaireEntryName :: "FHIRQuestionnaire Document \<Rightarrow> string" where
  "questionnaireEntryName q = ''questionnaire_'' @ id' q @ ''.csv''"

definition userEntryNames :: "Constants \<Rightarrow> string \<Rightarrow> string list" where
  "userEntryNames constants userId =
     [userId @ ''/appointments.csv'',
      userId @ ''/medicationRequests.csv'',
      userId @ ''/messages.csv'']
     @ map (\<lambda>collection. userId @ ''/'' @ collection @ ''.csv'') (observationCollections constants)
     @ [userId @ ''/questionnaireResponses_kccq.csv'',
        userId @ ''/symptomScores.csv'']"

text \<open>
  A store answers for a user when each of the user's queries returns and every appointment
  and symptom score returned has the fields on which the projections call a method.
\<close>

definition answered :: "'a query \<Rightarrow> bool" where
  "answered q = (case q of Inl message \<Rightarrow> False | Inr v \<Rightarrow> True)"

definition user_answered :: "Constants \<Rightarrow> Services \<Rightarrow> string \<Rightarrow> bool" where
  "user_answered constants services userId =
     ((case userAppointments services userId of
         Inl message \<Rightarrow> False
       | Inr appointments \<Rightarrow>
           list_all (\<lambda>a. created (content a) \<noteq> None \<and> start (content a) \<noteq> None
                          \<and> end' (content a) \<noteq> None) appointments)
      \<and> answered (userMedicationRequests services userId)
      \<and> answered (userMessages services userId)
      \<and> list_all (\<lambda>collection. answered (userObservations services userId collection))
            (observationCollections constants)
      \<and> answered (userQuestionnaireResponses services userId)
      \<and> (case userSymptomScores services userId of
            Inl message \<Rightarrow> False
          | Inr scores \<Rightarrow>
              list_all (\<lambda>s. overallScore (content s) \<noteq> None \<and> dizzinessScore (content s) \<noteq> None
                             \<and> date (content s) \<noteq> None) scores))"

section \<open>Properties of the field encoder\<close>

lemma test_special_iff: "test_special s \<longleftrightarrow> (\<exists>c \<in> set s. c = semicolon \<or> c = newline \<or> c = quote)"
  by (induction s) auto

lemma replace_quotes_concat:
  "replace_quotes s = concat (map (\<lambda>c. if c = quote then [quote, quote] else [c]) s)"
  by (induction s) auto

lemma test_formula_iff:
  "test_formula s \<longleftrightarrow> take 1 s \<in> {''='', ''+'', ''-'', ''@''}"
  by (cases s) auto

text \<open>
  C1. For every string \<open>raw\<close>: an apostrophe is put in front when \<open>raw\<close> starts with one of
  \<open>= + - @\<close>; when the resulting value contains a semicolon, a line feed or a double quote it
  is wrapped in double quotes with every inner double quote doubled; otherwise it is returned
  as it is. The field \<open>=SUM(A1)\<close> encodes to \<open>'=SUM(A1)\<close>.
\<close>

theorem escapeCsvField_contract:
  "escapeCsvField (Some raw) =
     Inr (Some
       (let v = (if take 1 raw \<in> {''='', ''+'', ''-'', ''@''} then [apostrophe] @ raw else raw)
        in if \<exists>c \<in> set v. c = semicolon \<or> c = newline \<or> c = quote
           then [quote] @ concat (map (\<lambda>c. if c = quote then [quote, quote] else [c]) v) @ [quote]
           else v))
   \<and> escapeCsvField (Some ''=SUM(A1)'') = Inr (Some (CHR 0x27 # ''=SUM(A1)''))"
  by (simp add: escapeCsvField_def Let_def test_special_iff replace_quotes_concat
      test_formula_iff apostrophe_def quote_def semicolon_def newline_def)

section \<open>Properties of the table builder\<close>

lemma escapeCsvField_total: "escapeCsvField c = Inr (map_option (\<lambda>_. cell_text c) c)"
  by (cases c)
     (simp_all add: escapeCsvField_def cell_text_def guarded_def Let_def semicolon_def
       newline_def quote_def)

lemma element_text_escaped: "element_text (map_option (\<lambda>_. cell_text c) c) = cell_text c"
  by (cases c) (simp_all add: cell_text_def)

lemma traverse_total: "(\<And>x. x \<in> set xs \<Longrightarrow> f x = Inr (g x)) \<Longrightarrow> traverse f xs = Inr (map g xs)"
  by (induction xs) simp_all

lemma join_element_text: "join sep cs = join sep (map (\<lambda>c. Some (element_text c)) cs)"
  by (induction sep cs rule: join.induct) simp_all

lemma csv_line_total: "csv_line cells = Inr (line_text cells)"
proof -
  have "traverse escapeCsvField cells = Inr (map (\<lambda>c. map_option (\<lambda>_. cell_text c) c) cells)"
    by (rule traverse_total) (rule escapeCsvField_total)
  moreover have "join [semicolon] (map (\<lambda>c. map_option (\<lambda>_. cell_text c) c) cells)
      = join [semicolon] (map (\<lambda>c. Some (cell_text c)) cells)"
    by (subst join_element_text) (simp add: comp_def element_text_escaped)
  ultimately show ?thesis by (simp add: csv_line_def line_text_def)
qed

lemma createCsvBuffer_total:
  assumes "\<And>v. v \<in> set values \<Longrightarrow> row v = Inr (cells v)"
  shows "createCsvBuffer headers values row =
    Inr (join [newline] (map (\<lambda>r. Some (line_text r))
      (map Some headers # map cells values)))"
proof -
  have "traverse (\<lambda>item. case row item of Inl e \<Rightarrow> Inl e | Inr cs \<Rightarrow> csv_line cs) values
      = Inr (map (\<lambda>v. line_text (cells v)) values)"
    by (rule traverse_total) (simp add: assms csv_line_total)
  then show ?thesis
    by (simp add: createCsvBuffer_def csv_line_total comp_def)
qed

lemma parse_shape: "\<exists>f fs rs. parse m s = (f # fs) # rs"
proof (induction m s rule: parse.induct)
  case (1 m) show ?case by simp
next
  case (2 c cs)
  then show ?case by (auto simp: new_row_def)
next
  case (3 c cs) then show ?case by (auto simp: new_row_def)
next
  case (4 c cs) then show ?case by auto
next
  case (5 c cs) then show ?case by (auto simp: new_row_def)
qed

lemma parse_at_delimiter:
  "at_delimiter rest \<Longrightarrow> parse Unquoted rest = parse FieldStart rest"
  "at_delimiter rest \<Longrightarrow> parse QuoteSeen rest = parse FieldStart rest"
  by (cases rest; auto simp: semicolon_def newline_def quote_def)+

lemma parse_at_delimiter_shape:
  "at_delimiter rest \<Longrightarrow> \<exists>fs rs. parse FieldStart rest = ([] # fs) # rs"
proof (cases rest)
  case Nil then show ?thesis by simp
next
  case (Cons c cs)
  obtain f fs rs where "parse FieldStart cs = (f # fs) # rs"
    using parse_shape by blast
  moreover assume "at_delimiter rest"
  ultimately show ?thesis using Cons
    by (auto simp: semicolon_def newline_def quote_def new_row_def)
qed

lemma add_chars: "foldr add_char s ((f # fs) # rs) = ((s @ f) # fs) # rs"
  by (induction s) simp_all

lemma parse_unquoted_run:
  "\<not> test_special s \<Longrightarrow> parse Unquoted (s @ rest) = foldr add_char s (parse Unquoted rest)"
  by (induction s) simp_all

lemma parse_plain_field:
  "\<not> test_special s \<Longrightarrow> at_delimiter rest \<Longrightarrow>
     parse FieldStart (s @ rest) = foldr add_char s (parse FieldStart rest)"
  by (cases s) (simp_all add: parse_unquoted_run parse_at_delimiter)

lemma parse_quoted_run:
  "parse Quoted (replace_quotes s @ quote # rest) = foldr add_char s (parse QuoteSeen rest)"
  by (induction s) simp_all

lemma parse_cell:
  "at_delimiter rest \<Longrightarrow>
     parse FieldStart (cell_text c @ rest) = foldr add_char (cell_value c) (parse FieldStart rest)"
  by (simp add: cell_text_def parse_plain_field parse_quoted_run parse_at_delimiter)

lemma parse_line_nonempty:
  assumes "at_delimiter rest" and "parse FieldStart rest = ([] # fs) # rs"
  shows "parse FieldStart (join [semicolon] (map (\<lambda>c. Some (cell_text c)) (c # cells)) @ rest)
           = (map cell_value (c # cells) @ fs) # rs"
proof (induction cells arbitrary: c)
  case Nil
  show ?case by (simp add: assms parse_cell add_chars)
next
  case (Cons d cells)
  have "parse FieldStart (semicolon # join [semicolon] (map (\<lambda>c. Some (cell_text c)) (d # cells)) @ rest)
          = ([] # map cell_value (d # cells) @ fs) # rs"
    using Cons [of d] by (simp add: quote_def semicolon_def)
  then show ?case by (simp add: parse_cell add_chars)
qed

lemma parse_line:
  assumes "at_delimiter rest" and "parse FieldStart rest = ([] # fs) # rs"
  shows "parse FieldStart (join [semicolon] (map (\<lambda>c. Some (cell_text c)) cells) @ rest)
           = (row_value cells @ fs) # rs"
proof (cases cells)
  case Nil
  then show ?thesis by (simp add: row_value_def assms)
next
  case (Cons c cs)
  then show ?thesis using parse_line_nonempty [OF assms] by (simp add: row_value_def)
qed

lemma parse_lines:
  "parse FieldStart (join [newline] (map (\<lambda>r. Some (line_text r)) (r # rows)))
     = map row_value (r # rows)"
proof (induction rows arbitrary: r)
  case Nil
  show ?case using parse_line [of "[]" "[]" "[]" r] by (simp add: line_text_def)
next
  case (Cons r' rows)
  have "parse FieldStart (newline # join [newline] (map (\<lambda>r. Some (line_text r)) (r' # rows)))
          = [[]] # map row_value (r' # rows)"
    using Cons [of r'] by (simp add: quote_def semicolon_def newline_def new_row_def)
  then show ?case
    using parse_line [of "newline # join [newline] (map (\<lambda>r. Some (line_text r)) (r' # rows))" "[]" "map row_value (r' # rows)" r]
    by (simp add: line_text_def)
qed

lemma parse_createCsvBuffer:
  assumes "\<And>v. v \<in> set values \<Longrightarrow> row v = Inr (cells v)"
  shows "map_sum id parse_csv (createCsvBuffer headers values row)
           = Inr (map row_value (map Some headers # map cells values))"
  using parse_lines [of "map Some headers" "map cells values"]
  by (simp add: createCsvBuffer_total [OF assms] parse_csv_def line_text_def comp_def)


text \<open>
  C2, as amended. For every header list, record list and projection, the table reads back
  as \<open>records.length + 1\<close> rows: the header row, then one row per record in the order of
  the records. When the header list is not empty and the projection returns
  \<open>headers.length\<close> cells for every record, every row has \<open>headers.length\<close> cells. With no
  record the table is the header line alone.
\<close>

theorem createCsvBuffer_rows_and_cells:
  "\<exists>buffer. createCsvBuffer headers values (\<lambda>v. string_cells (row v)) = Inr buffer
     \<and> length (parse_csv buffer) = length values + 1
     \<and> (headers \<noteq> [] \<longrightarrow> parse_csv buffer ! 0 = map guarded headers)
     \<and> (\<forall>i < length values. row (values ! i) \<noteq> [] \<longrightarrow>
            parse_csv buffer ! Suc i = map guarded (row (values ! i)))
     \<and> (headers \<noteq> [] \<and> (\<forall>v \<in> set values. length (row v) = length headers) \<longrightarrow>
            (\<forall>r \<in> set (parse_csv buffer). length r = length headers))
     \<and> (values = [] \<longrightarrow> Inr buffer = csv_line (map Some headers))"
proof -
  let ?cells = "\<lambda>v. map Some (row v)"
  let ?buffer = "join [newline] (map (\<lambda>r. Some (line_text r)) (map Some headers # map ?cells values))"
  have built: "createCsvBuffer headers values (\<lambda>v. string_cells (row v)) = Inr ?buffer"
    by (rule createCsvBuffer_total) (simp add: string_cells_def)
  have parsed: "parse_csv ?buffer = map row_value (map Some headers # map ?cells values)"
    using parse_lines [of "map Some headers" "map ?cells values"] by (simp add: parse_csv_def)
  have strings: "r \<noteq> [] \<Longrightarrow> row_value (map Some r) = map guarded r" for r
    by (simp add: row_value_def)
  have count: "length (parse_csv ?buffer) = length values + 1"
    unfolding parsed by simp
  have header: "headers \<noteq> [] \<longrightarrow> parse_csv ?buffer ! 0 = map guarded headers"
    unfolding parsed by (simp add: strings)
  have records: "\<forall>i < length values. row (values ! i) \<noteq> [] \<longrightarrow>
      parse_csv ?buffer ! Suc i = map guarded (row (values ! i))"
    unfolding parsed by (simp add: strings)
  have cells: "headers \<noteq> [] \<and> (\<forall>v \<in> set values. length (row v) = length headers) \<longrightarrow>
      (\<forall>r \<in> set (parse_csv ?buffer). length r = length headers)"
    unfolding parsed by (auto simp: row_value_def)
  have alone: "values = [] \<longrightarrow> Inr ?buffer = csv_line (map Some headers)"
    by (simp add: csv_line_total)
  from built count header records cells alone show ?thesis by blast
qed

theorem createCsvBuffer_rows_and_cells_witness:
  "\<exists>buffer. createCsvBuffer [''id'', ''note''] [[''1'', ''a;b''], [''2'', ''=c'']]
               (\<lambda>v. string_cells v) = Inr buffer
     \<and> length (parse_csv buffer) = 3
     \<and> parse_csv buffer ! 0 = [''id'', ''note'']
     \<and> parse_csv buffer ! 1 = [''1'', ''a;b'']
     \<and> list_all (\<lambda>r. length r = 2) (parse_csv buffer)"
proof -
  obtain buffer where
    "createCsvBuffer [''id'', ''note''] [[''1'', ''a;b''], [''2'', ''=c'']]
       (\<lambda>v. string_cells v) = Inr buffer"
    "length (parse_csv buffer) = 3"
    "parse_csv buffer ! 0 = [''id'', ''note'']"
    "parse_csv buffer ! 1 = [''1'', ''a;b'']"
    "\<forall>r \<in> set (parse_csv buffer). length r = 2"
    using createCsvBuffer_rows_and_cells
      [of "[''id'', ''note'']" "[[''1'', ''a;b''], [''2'', ''=c'']]" "\<lambda>v. v"]
    by (auto simp: guarded_def)
  then show ?thesis by (auto simp: list_all_iff)
qed

text \<open>
  For the empty header list the cell count of the specification does not hold: the table
  is the empty text, the same as for the one header \<open>""\<close>, and it reads back as one row of
  one cell.
\<close>

theorem createCsvBuffer_no_header_counterexample:
  "createCsvBuffer [] ([] :: string list list) string_cells = Inr []
   \<and> createCsvBuffer [[]] ([] :: string list list) string_cells = Inr []
   \<and> map length (parse_csv []) \<noteq> [length ([] :: string list)]"
  by (simp add: createCsvBuffer_def csv_line_def escapeCsvField_def parse_csv_def)

text \<open>
  C3, as amended. Reading back the table built from rows of strings gives, for every row
  with at least one cell, its cells in order, each with an apostrophe in front when it
  starts with \<open>= + - @\<close> and as it was otherwise; a row with no cell reads back as one
  empty cell. So the original cells are reconstructed exactly when no row is empty and no
  cell starts with \<open>= + - @\<close>.
\<close>

theorem parse_createCsvBuffer_roundtrip:
  "map_sum id parse_csv (createCsvBuffer headers rows string_cells)
     = Inr (map (\<lambda>r. if r = [] then [[]] else map guarded r) (headers # rows))
   \<and> ((\<forall>r \<in> set (headers # rows).
          r \<noteq> [] \<and> (\<forall>c \<in> set r. take 1 c \<notin> {''='', ''+'', ''-'', ''@''}))
        \<longrightarrow> map_sum id parse_csv (createCsvBuffer headers rows string_cells)
              = Inr (headers # rows))"
proof -
  have "map_sum id parse_csv (createCsvBuffer headers rows string_cells)
          = Inr (map row_value (map Some headers # map (map Some) rows))"
    by (rule parse_createCsvBuffer) (simp add: string_cells_def)
  moreover have "map row_value (map Some headers # map (map Some) rows)
          = map (\<lambda>r. if r = [] then [[]] else map guarded r) (headers # rows)"
    by (simp add: row_value_def comp_def)
  ultimately have general: "map_sum id parse_csv (createCsvBuffer headers rows string_cells)
          = Inr (map (\<lambda>r. if r = [] then [[]] else map guarded r) (headers # rows))"
    by simp
  have "map (\<lambda>r. if r = [] then [[]] else map guarded r) (headers # rows) = headers # rows"
    if "\<forall>r \<in> set (headers # rows).
          r \<noteq> [] \<and> (\<forall>c \<in> set r. take 1 c \<notin> {''='', ''+'', ''-'', ''@''})"
  proof -
    have "(if r = [] then [[]] else map guarded r) = r" if "r \<in> set (headers # rows)" for r
    proof -
      have "r \<noteq> []" and "\<forall>c \<in> set r. \<not> test_formula c"
        using that \<open>\<forall>r \<in> set (headers # rows). _\<close> by (auto simp: test_formula_iff)
      then show ?thesis by (simp add: guarded_def map_idI)
    qed
    then show ?thesis by (simp add: map_idI)
  qed
  with general show ?thesis by simp
qed

theorem parse_createCsvBuffer_roundtrip_witness:
  "map_sum id parse_csv
     (createCsvBuffer [''id'', ''note''] [[''1'', ''a;b''], [''2'', [CHR 0x22, CHR 0x0A]]]
        string_cells)
     = Inr [[''id'', ''note''], [''1'', ''a;b''], [''2'', [CHR 0x22, CHR 0x0A]]]"
  using parse_createCsvBuffer_roundtrip
    [of "[''id'', ''note'']" "[[''1'', ''a;b''], [''2'', [CHR 0x22, CHR 0x0A]]]"]
  by (simp add: guarded_def)

text \<open>
  The identity of the specification does not hold for a cell that starts with \<open>=\<close>: it
  reads back with the apostrophe of the formula guard in front.
\<close>

theorem parse_createCsvBuffer_counterexample:
  "map_sum id parse_csv (createCsvBuffer [''=SUM(A1)''] ([] :: string list list) string_cells)
     \<noteq> Inr ([''=SUM(A1)''] # [])"
  by (simp add: createCsvBuffer_def csv_line_def escapeCsvField_def parse_csv_def
      apostrophe_def quote_def semicolon_def newline_def new_row_def)

section \<open>Properties of the leaf collection\<close>

lemma concat_filter_each:
  "(\<And>c. c \<in> set cs \<Longrightarrow> f c = filter P (g c)) \<Longrightarrow>
     concat (map f cs) = filter P (concat (map g cs))"
  by (induction cs) simp_all

lemma leafItems_filter_preorder: "leafItems node = filter is_leaf (preorder node)"
proof (induction node rule: leafItems.induct)
  case (1 l t ty ao)
  show ?case by (simp add: is_leaf_def children_def)
next
  case (2 l t ty ao cs)
  show ?case
  proof (cases "cs = []")
    case True
    then show ?thesis by (simp add: is_leaf_def children_def)
  next
    case False
    then have "concat (map leafItems cs) = filter is_leaf (concat (map preorder cs))"
      using "2.IH" by (intro concat_filter_each) simp
    moreover have "\<not> is_leaf (FHIRQuestionnaireItem l t ty ao (Some cs))"
      using False by (simp add: is_leaf_def children_def)
    ultimately show ?thesis using False by simp
  qed
qed

lemma leafItems_size: "y \<in> set (leafItems node) \<Longrightarrow> size y \<le> size node"
proof (induction node arbitrary: y rule: leafItems.induct)
  case (1 l t ty ao)
  then show ?case by simp
next
  case (2 l t ty ao cs)
  show ?case
  proof (cases "cs = []")
    case True
    with "2.prems" show ?thesis by simp
  next
    case False
    with "2.prems" obtain c where c: "c \<in> set cs" "y \<in> set (leafItems c)"
      by auto
    with False "2.IH" have "size y \<le> size c" by simp
    moreover have "size c \<le> size_list size cs"
      using c(1) by (simp add: size_list_estimation')
    ultimately show ?thesis by simp
  qed
qed

lemma leafItems_of_parent: "item node = Some (c # cs) \<Longrightarrow> leafItems node \<noteq> [node]"
proof
  assume parent: "item node = Some (c # cs)" and single: "leafItems node = [node]"
  obtain l t ty ao where node: "node = FHIRQuestionnaireItem l t ty ao (Some (c # cs))"
    using parent by (cases node) simp
  then have "node \<in> set (concat (map leafItems (c # cs)))"
    using single by simp
  then obtain d where d: "d \<in> set (c # cs)" "node \<in> set (leafItems d)"
    by auto
  then have "size node \<le> size d"
    by (simp add: leafItems_size)
  moreover have "size d \<le> size_list size (c # cs)"
    using d(1) by (simp only: size_list_estimation' [OF _ order_refl])
  moreover have "size_list size (c # cs) < size node"
    by (simp add: node)
  ultimately show False by simp
qed

text \<open>
  C4. The rows exported for an item tree are exactly its leaves (the nodes with no child),
  depth first in pre-order with the children in their original order; a node that has
  children is not among them. For a questionnaire it is so for its top-level items in
  turn. On the tree \<open>A(children: A1, A2(children: A2a))\<close> the leaves are \<open>[A1, A2a]\<close>.
\<close>

theorem leafItems_are_leaves_in_preorder:
  "leafItems node = filter is_leaf (preorder node)
   \<and> questionnaireItems (Document i \<lparr>questionnaire_item = Some tops\<rparr>)
       = filter is_leaf (concat (map preorder tops))
   \<and> questionnaireItems (Document i \<lparr>questionnaire_item = None\<rparr>) = []
   \<and> preorder example_tree
       = [example_tree, leaf_named ''A1'', node_named ''A2'' [leaf_named ''A2a''],
          leaf_named ''A2a'']
   \<and> leafItems example_tree = [leaf_named ''A1'', leaf_named ''A2a'']"
proof -
  have "concat (map leafItems tops) = filter is_leaf (concat (map preorder tops))"
    by (rule concat_filter_each) (rule leafItems_filter_preorder)
  then show ?thesis
    by (simp add: leafItems_filter_preorder [of node] questionnaireItems_def coalesce_def
        example_tree_def leaf_named_def node_named_def)
qed

text \<open>
  C9. An item whose child list is present but empty is treated as an item with no child
  list: \<open>leafItems\<close> returns it alone, so it is a row of the table. An item is returned
  alone exactly when its child list is absent or has length zero.
\<close>

theorem empty_child_list_is_leaf:
  "leafItems (FHIRQuestionnaireItem l t ty ao (Some [])) = [FHIRQuestionnaireItem l t ty ao (Some [])]
   \<and> leafItems (FHIRQuestionnaireItem l t ty ao None) = [FHIRQuestionnaireItem l t ty ao None]
   \<and> (leafItems node = [node] \<longleftrightarrow> item node = None \<or> (\<exists>cs. item node = Some cs \<and> length cs = 0))
   \<and> questionnaireItems
        (Document i \<lparr>questionnaire_item = Some [FHIRQuestionnaireItem l t ty ao (Some [])]\<rparr>)
       = [FHIRQuestionnaireItem l t ty ao (Some [])]"
proof -
  have "leafItems node = [node] \<longleftrightarrow> item node = None \<or> (\<exists>cs. item node = Some cs \<and> length cs = 0)"
  proof (cases "item node")
    case None
    then show ?thesis by (cases node) simp
  next
    case (Some cs)
    show ?thesis
    proof (cases cs)
      case Nil
      with Some show ?thesis by (cases node) simp
    next
      case (Cons c cs')
      with Some show ?thesis using leafItems_of_parent [of node c cs'] by simp
    qed
  qed
  then show ?thesis
    by (simp add: questionnaireItems_def coalesce_def)
qed

section \<open>Properties of the projections\<close>

lemma split_not_empty: "split sep s \<noteq> []"
  by (induction s) (simp_all split: list.splits)

lemma length_split: "length (split sep s) = Suc (count_list s sep)"
proof (induction s)
  case Nil
  show ?case by simp
next
  case (Cons c s)
  obtain p ps where "split sep s = p # ps"
    using split_not_empty [of sep s] by (cases "split sep s") auto
  with Cons show ?case by auto
qed

lemma join_split: "join [sep] (map Some (split sep s)) = s"
proof (induction s)
  case Nil
  show ?case by simp
next
  case (Cons c s)
  obtain p ps where ps: "split sep s = p # ps"
    using split_not_empty [of sep s] by (cases "split sep s") auto
  with Cons show ?case
    by (cases ps) auto
qed

lemma parse_single_line: "cells \<noteq> [] \<Longrightarrow> parse_csv (line_text cells) = [map cell_value cells]"
  using parse_line [of "[]" "[]" "[]" cells]
  by (simp add: parse_csv_def line_text_def row_value_def)

lemma cell_value_index:
  "cell_value (index parts i) = (if i < length parts then guarded (parts ! i) else [])"
  by (simp add: index_def)

lemma split_no_separator: "sep \<notin> set s \<Longrightarrow> split sep s = [s]"
  by (induction s) auto

lemma split_segment:
  "sep \<notin> set s \<Longrightarrow> split sep (s @ sep # rest) = s # split sep rest"
  by (induction s) auto

lemma split_pieces: "p \<in> set (split sep s) \<Longrightarrow> sep \<notin> set p"
proof (induction s arbitrary: p)
  case Nil
  then show ?case by simp
next
  case (Cons c s)
  obtain q qs where "split sep s = q # qs"
    using split_not_empty [of sep s] by (cases "split sep s") auto
  with Cons show ?case
    by (auto split: if_splits)
qed

lemma split_join:
  "segments \<noteq> [] \<Longrightarrow> \<forall>s \<in> set segments. sep \<notin> set s \<Longrightarrow>
     split sep (join [sep] (map Some segments)) = segments"
proof (induction segments rule: list_nonempty_induct)
  case (single s)
  then show ?case by (simp add: split_no_separator)
next
  case (cons s segments)
  then obtain t ts where "segments = t # ts"
    by (cases segments) auto
  with cons show ?case
    by (simp add: split_segment)
qed

text \<open>
  C5. The reference of a medication request, the empty string when it is missing, is
  split on \<open>/\<close>; the medication code cell is the 2nd piece and the drug code cell the 4th:
  for a reference that is the segments \<open>s\<^sub>0/s\<^sub>1/s\<^sub>2/...\<close> (every string is, in one way,
  such a sequence of segments free of \<open>/\<close>) the cells are \<open>s\<^sub>1\<close> and \<open>s\<^sub>3\<close>. The
  projection never fails: a cell whose segment does not exist is \<open>undefined\<close>, which the
  line of the table carries as an empty cell. A reference of two segments gives a
  populated medication code and an empty drug code.
\<close>

theorem medicationRequestRow_reference_cells:
  "\<exists>cells line.
     medicationRequestRow v = Inr cells \<and> length cells = 6
     \<and> csv_line cells = Inr line \<and> parse_csv line = [map cell_value cells]
     \<and> (\<forall>r segments.
           medicationReference (content v) = Some r
           \<and> reference r = Some (join ''/'' (map Some segments))
           \<and> segments \<noteq> [] \<and> (\<forall>s \<in> set segments. CHR ''/'' \<notin> set s) \<longrightarrow>
           cells ! 1 = (if length segments < 2 then None else Some (segments ! 1))
           \<and> cells ! 2 = (if length segments < 4 then None else Some (segments ! 3))
           \<and> cell_value (cells ! 1) = (if length segments < 2 then [] else guarded (segments ! 1))
           \<and> cell_value (cells ! 2) = (if length segments < 4 then [] else guarded (segments ! 3)))
     \<and> (medicationReference (content v) = None
          \<or> (\<exists>r. medicationReference (content v) = Some r \<and> reference r = None) \<longrightarrow>
           cells ! 1 = None \<and> cells ! 2 = None
           \<and> cell_value (cells ! 1) = [] \<and> cell_value (cells ! 2) = [])
     \<and> cells ! 1 = index (referenceParts (content v)) 1
     \<and> cells ! 2 = index (referenceParts (content v)) 3
     \<and> join ''/'' (map Some (referenceParts (content v)))
         = (case medicationReference (content v) of
              None \<Rightarrow> []
            | Some r \<Rightarrow> (case reference r of None \<Rightarrow> [] | Some s \<Rightarrow> s))
     \<and> (\<forall>p \<in> set (referenceParts (content v)). CHR ''/'' \<notin> set p)"
proof -
  let ?parts = "referenceParts (content v)"
  obtain cells where row: "medicationRequestRow v = Inr cells" and six: "length cells = 6"
    and c1: "cells ! 1 = index ?parts 1" and c2: "cells ! 2 = index ?parts 3"
    by (simp add: medicationRequestRow_def Let_def)
  from six have "cells \<noteq> []" by auto
  then have line: "csv_line cells = Inr (line_text cells)"
    and parsed: "parse_csv (line_text cells) = [map cell_value cells]"
    by (simp_all add: csv_line_total parse_single_line)
  have segmented: "\<forall>r segments.
      medicationReference (content v) = Some r
      \<and> reference r = Some (join ''/'' (map Some segments))
      \<and> segments \<noteq> [] \<and> (\<forall>s \<in> set segments. CHR ''/'' \<notin> set s) \<longrightarrow>
      cells ! 1 = (if length segments < 2 then None else Some (segments ! 1))
      \<and> cells ! 2 = (if length segments < 4 then None else Some (segments ! 3))
      \<and> cell_value (cells ! 1) = (if length segments < 2 then [] else guarded (segments ! 1))
      \<and> cell_value (cells ! 2) = (if length segments < 4 then [] else guarded (segments ! 3))"
  proof (intro allI impI)
    fix r segments
    assume given: "medicationReference (content v) = Some r
      \<and> reference r = Some (join ''/'' (map Some segments))
      \<and> segments \<noteq> [] \<and> (\<forall>s \<in> set segments. CHR ''/'' \<notin> set s)"
    then have "?parts = split CHR ''/'' (join ''/'' (map Some segments))"
      by (simp add: referenceParts_def chain_def coalesce_def)
    also have "\<dots> = segments"
      using given split_join [of segments "CHR ''/''"] by simp
    finally have parts: "?parts = segments" .
    show "cells ! 1 = (if length segments < 2 then None else Some (segments ! 1))
      \<and> cells ! 2 = (if length segments < 4 then None else Some (segments ! 3))
      \<and> cell_value (cells ! 1) = (if length segments < 2 then [] else guarded (segments ! 1))
      \<and> cell_value (cells ! 2) = (if length segments < 4 then [] else guarded (segments ! 3))"
      unfolding c1 c2 parts by (auto simp: index_def)
  qed
  have absent: "medicationReference (content v) = None
      \<or> (\<exists>r. medicationReference (content v) = Some r \<and> reference r = None) \<longrightarrow>
      cells ! 1 = None \<and> cells ! 2 = None
      \<and> cell_value (cells ! 1) = [] \<and> cell_value (cells ! 2) = []"
  proof
    assume "medicationReference (content v) = None
      \<or> (\<exists>r. medicationReference (content v) = Some r \<and> reference r = None)"
    then have "?parts = [[]]"
      by (auto simp: referenceParts_def chain_def coalesce_def)
    then show "cells ! 1 = None \<and> cells ! 2 = None
      \<and> cell_value (cells ! 1) = [] \<and> cell_value (cells ! 2) = []"
      unfolding c1 c2 by (simp add: index_def)
  qed
  have joined: "join ''/'' (map Some ?parts)
      = (case medicationReference (content v) of
           None \<Rightarrow> []
         | Some r \<Rightarrow> (case reference r of None \<Rightarrow> [] | Some s \<Rightarrow> s))"
    by (simp add: referenceParts_def join_split chain_def coalesce_def split: option.splits)
  have pieces: "\<forall>p \<in> set ?parts. CHR ''/'' \<notin> set p"
    by (auto simp: referenceParts_def dest: split_pieces)
  show ?thesis
    by (intro exI [where x = cells] exI [where x = "line_text cells"] conjI
        row six line parsed segmented absent c1 c2 joined pieces)
qed

theorem medicationRequestRow_reference_cells_witness:
  "(\<exists>cells line.
      medicationRequestRow example_request_4 = Inr cells \<and> csv_line cells = Inr line
      \<and> parse_csv line = [map cell_value cells]
      \<and> cells ! 1 = Some ''203160'' \<and> cells ! 2 = Some ''20352''
      \<and> cell_value (cells ! 1) = ''203160'' \<and> cell_value (cells ! 2) = ''20352'')
   \<and> (\<exists>cells line.
      medicationRequestRow example_request = Inr cells \<and> csv_line cells = Inr line
      \<and> parse_csv line = [map cell_value cells]
      \<and> cells ! 1 = Some ''203160'' \<and> cells ! 2 = None
      \<and> cell_value (cells ! 1) = ''203160'' \<and> cell_value (cells ! 2) = [])
   \<and> map_sum id (map cell_value) (medicationRequestRow example_request_4)
       = Inr [''m2'', ''203160'', ''20352'', ''10'', ''mg'', ''2'']
   \<and> map_sum id (map cell_value) (medicationRequestRow example_request)
       = Inr [''m1'', ''203160'', [], [], [], []]"
proof -
  have four: "medicationReference (content example_request_4)
        = Some \<lparr>reference = Some ''medications/203160/drugs/20352''\<rparr>
      \<and> reference \<lparr>reference = Some ''medications/203160/drugs/20352''\<rparr>
        = Some (join ''/'' (map Some [''medications'', ''203160'', ''drugs'', ''20352'']))
      \<and> [''medications'', ''203160'', ''drugs'', ''20352''] \<noteq> []
      \<and> (\<forall>s \<in> set [''medications'', ''203160'', ''drugs'', ''20352'']. CHR ''/'' \<notin> set s)"
    by (simp add: example_request_4_def)
  have two: "medicationReference (content example_request)
        = Some \<lparr>reference = Some ''medications/203160''\<rparr>
      \<and> reference \<lparr>reference = Some ''medications/203160''\<rparr>
        = Some (join ''/'' (map Some [''medications'', ''203160'']))
      \<and> [''medications'', ''203160''] \<noteq> []
      \<and> (\<forall>s \<in> set [''medications'', ''203160'']. CHR ''/'' \<notin> set s)"
    by (simp add: example_request_def)
  obtain cells line where row: "medicationRequestRow example_request_4 = Inr cells"
    and line: "csv_line cells = Inr line" and parsed: "parse_csv line = [map cell_value cells]"
    and segmented: "\<forall>r segments.
      medicationReference (content example_request_4) = Some r
      \<and> reference r = Some (join ''/'' (map Some segments))
      \<and> segments \<noteq> [] \<and> (\<forall>s \<in> set segments. CHR ''/'' \<notin> set s) \<longrightarrow>
      cells ! 1 = (if length segments < 2 then None else Some (segments ! 1))
      \<and> cells ! 2 = (if length segments < 4 then None else Some (segments ! 3))
      \<and> cell_value (cells ! 1) = (if length segments < 2 then [] else guarded (segments ! 1))
      \<and> cell_value (cells ! 2) = (if length segments < 4 then [] else guarded (segments ! 3))"
    using medicationRequestRow_reference_cells [of example_request_4] by (elim exE conjE)
  from segmented four have
    "cells ! 1 = (if length [''medications'', ''203160'', ''drugs'', ''20352''] < 2 then None
        else Some ([''medications'', ''203160'', ''drugs'', ''20352''] ! 1))
     \<and> cells ! 2 = (if length [''medications'', ''203160'', ''drugs'', ''20352''] < 4 then None
        else Some ([''medications'', ''203160'', ''drugs'', ''20352''] ! 3))
     \<and> cell_value (cells ! 1)
        = (if length [''medications'', ''203160'', ''drugs'', ''20352''] < 2 then []
           else guarded ([''medications'', ''203160'', ''drugs'', ''20352''] ! 1))
     \<and> cell_value (cells ! 2)
        = (if length [''medications'', ''203160'', ''drugs'', ''20352''] < 4 then []
           else guarded ([''medications'', ''203160'', ''drugs'', ''20352''] ! 3))"
    by (elim allE [where x = "\<lparr>reference = Some ''medications/203160/drugs/20352''\<rparr>"]
        allE [where x = "[''medications'', ''203160'', ''drugs'', ''20352'']"]) (rule mp)
  then have "cells ! 1 = Some ''203160'' \<and> cells ! 2 = Some ''20352''
      \<and> cell_value (cells ! 1) = ''203160'' \<and> cell_value (cells ! 2) = ''20352''"
    by (simp add: guarded_def)
  with row line parsed have first: "\<exists>cells line.
      medicationRequestRow example_request_4 = Inr cells \<and> csv_line cells = Inr line
      \<and> parse_csv line = [map cell_value cells]
      \<and> cells ! 1 = Some ''203160'' \<and> cells ! 2 = Some ''20352''
      \<and> cell_value (cells ! 1) = ''203160'' \<and> cell_value (cells ! 2) = ''20352''"
    by (intro exI [where x = cells] exI [where x = line]) (intro conjI, simp_all add: guarded_def)
  obtain cells' line' where row': "medicationRequestRow example_request = Inr cells'"
    and line': "csv_line cells' = Inr line'"
    and parsed': "parse_csv line' = [map cell_value cells']"
    and segmented': "\<forall>r segments.
      medicationReference (content example_request) = Some r
      \<and> reference r = Some (join ''/'' (map Some segments))
      \<and> segments \<noteq> [] \<and> (\<forall>s \<in> set segments. CHR ''/'' \<notin> set s) \<longrightarrow>
      cells' ! 1 = (if length segments < 2 then None else Some (segments ! 1))
      \<and> cells' ! 2 = (if length segments < 4 then None else Some (segments ! 3))
      \<and> cell_value (cells' ! 1) = (if length segments < 2 then [] else guarded (segments ! 1))
      \<and> cell_value (cells' ! 2) = (if length segments < 4 then [] else guarded (segments ! 3))"
    using medicationRequestRow_reference_cells [of example_request] by (elim exE conjE)
  from segmented' two have
    "cells' ! 1 = (if length [''medications'', ''203160''] < 2 then None
        else Some ([''medications'', ''203160''] ! 1))
     \<and> cells' ! 2 = (if length [''medications'', ''203160''] < 4 then None
        else Some ([''medications'', ''203160''] ! 3))
     \<and> cell_value (cells' ! 1)
        = (if length [''medications'', ''203160''] < 2 then []
           else guarded ([''medications'', ''203160''] ! 1))
     \<and> cell_value (cells' ! 2)
        = (if length [''medications'', ''203160''] < 4 then []
           else guarded ([''medications'', ''203160''] ! 3))"
    by (elim allE [where x = "\<lparr>reference = Some ''medications/203160''\<rparr>"]
        allE [where x = "[''medications'', ''203160'']"]) (rule mp)
  then have "cells' ! 1 = Some ''203160'' \<and> cells' ! 2 = None
      \<and> cell_value (cells' ! 1) = ''203160'' \<and> cell_value (cells' ! 2) = []"
    by (simp add: guarded_def)
  with row' line' parsed' have second: "\<exists>cells line.
      medicationRequestRow example_request = Inr cells \<and> csv_line cells = Inr line
      \<and> parse_csv line = [map cell_value cells]
      \<and> cells ! 1 = Some ''203160'' \<and> cells ! 2 = None
      \<and> cell_value (cells ! 1) = ''203160'' \<and> cell_value (cells ! 2) = []"
    by (intro exI [where x = cells'] exI [where x = line']) (intro conjI, simp_all add: guarded_def)
  have rows: "map_sum id (map cell_value) (medicationRequestRow example_request_4)
        = Inr [''m2'', ''203160'', ''20352'', ''10'', ''mg'', ''2'']"
    "map_sum id (map cell_value) (medicationRequestRow example_request)
        = Inr [''m1'', ''203160'', [], [], [], []]"
    by (simp_all add: medicationRequestRow_def referenceParts_def example_request_4_def
        example_request_def Let_def index_def optional_text_def chain_def coalesce_def
        guarded_def)
  show ?thesis
    by (intro conjI first second rows)
qed

lemma traverse_Inl: "traverse f xs = Inl e \<Longrightarrow> \<exists>x \<in> set xs. f x = Inl e"
  by (induction xs) (auto split: sum.splits)

lemma traverse_fails: "x \<in> set xs \<Longrightarrow> f x = Inl e \<Longrightarrow> \<exists>e'. traverse f xs = Inl e'"
  by (induction xs) (auto split: sum.splits)

lemma createCsvBuffer_Inl:
  "createCsvBuffer headers values row = Inl e \<Longrightarrow> \<exists>v \<in> set values. row v = Inl e"
  by (auto simp: createCsvBuffer_def csv_line_total split: sum.splits dest!: traverse_Inl)

lemma createCsvBuffer_fails:
  assumes "v \<in> set values" and "row v = Inl e"
  shows "\<exists>e'. createCsvBuffer headers values row = Inl e'"
proof -
  have "(case row v of Inl e \<Rightarrow> Inl e | Inr cells \<Rightarrow> csv_line cells) = Inl e"
    using assms(2) by simp
  with assms(1) have "\<exists>e'. traverse (\<lambda>item. case row item of Inl e \<Rightarrow> Inl e | Inr cells \<Rightarrow> csv_line cells)
      values = Inl e'"
    by (rule traverse_fails [where x = v and e = e])
  then show ?thesis
    by (auto simp: createCsvBuffer_def csv_line_total)
qed

lemma appointmentRow_cases:
  "appointmentRow a =
     (case (created (content a), start (content a), end' (content a)) of
        (Some c, Some b, Some e) \<Rightarrow>
          Inr [Some (id' a), status (content a), Some (toISOString c), Some (toISOString b),
               Some (toISOString e)]
      | _ \<Rightarrow> Inl TypeError)"
  by (simp add: appointmentRow_def andThen_def invoke_def split: option.splits)

lemma symptomScoreRow_cases:
  "symptomScoreRow s =
     (case (overallScore (content s), dizzinessScore (content s), date (content s)) of
        (Some overall, Some dizziness, Some day) \<Rightarrow>
          Inr [Some (id' s),
               Some (toString overall),
               optional_text (physicalLimitsScore (content s)) toString,
               optional_text (socialLimitsScore (content s)) toString,
               optional_text (symptomFrequencyScore (content s)) toString,
               optional_text (qualityOfLifeScore (content s)) toString,
               Some (toString dizziness),
               Some (toISOString day),
               Some (coalesce (questionnaireResponseId (content s)) [])]
      | _ \<Rightarrow> Inl TypeError)"
  by (simp add: symptomScoreRow_def andThen_def invoke_def split: option.splits)

text \<open>
  C10, as amended. The projections call \<open>toString\<close> and \<open>toISOString\<close> with no guard on
  \<open>overallScore\<close>, \<open>dizzinessScore\<close> and \<open>date\<close> of a symptom score and on \<open>created\<close>,
  \<open>start\<close> and \<open>end\<close> of an appointment: the projection throws a \<open>TypeError\<close> exactly when
  one of these is missing, and the table is then not built. With all of them present the
  projection returns its row. The \<open>status\<close> of an appointment is read with no method
  call; the row carries it as it is, missing or not.
\<close>

theorem required_fields_unguarded:
  "(symptomScoreRow s = Inl TypeError \<longleftrightarrow>
      overallScore (content s) = None \<or> dizzinessScore (content s) = None
      \<or> date (content s) = None)
   \<and> (appointmentRow a = Inl TypeError \<longleftrightarrow>
      created (content a) = None \<or> start (content a) = None \<or> end' (content a) = None)
   \<and> (symptomScoreRow s \<noteq> Inl TypeError \<longrightarrow>
        (\<exists>cells. symptomScoreRow s = Inr cells \<and> length cells = 9))
   \<and> (appointmentRow a \<noteq> Inl TypeError \<longrightarrow>
        (\<exists>c b e. appointmentRow a =
           Inr [Some (id' a), status (content a), Some (toISOString c), Some (toISOString b),
                Some (toISOString e)]))
   \<and> (s \<in> set scores \<and> symptomScoreRow s = Inl TypeError \<longrightarrow>
        createCsvBuffer headers scores symptomScoreRow = Inl TypeError)
   \<and> (a \<in> set appointments \<and> appointmentRow a = Inl TypeError \<longrightarrow>
        createCsvBuffer headers' appointments appointmentRow = Inl TypeError)"
proof -
  have scores: "createCsvBuffer headers scores symptomScoreRow = Inl TypeError"
    if given: "s \<in> set scores" "symptomScoreRow s = Inl TypeError"
  proof -
    obtain e where e: "createCsvBuffer headers scores symptomScoreRow = Inl e"
      using createCsvBuffer_fails [where row = symptomScoreRow and v = s and e = TypeError] given
      by blast
    then obtain v where "symptomScoreRow v = Inl e"
      using createCsvBuffer_Inl by blast
    then have "e = TypeError"
      by (simp add: symptomScoreRow_cases split: option.splits)
    with e show ?thesis by simp
  qed
  have appointments: "createCsvBuffer headers' appointments appointmentRow = Inl TypeError"
    if given: "a \<in> set appointments" "appointmentRow a = Inl TypeError"
  proof -
    obtain e where e: "createCsvBuffer headers' appointments appointmentRow = Inl e"
      using createCsvBuffer_fails [where row = appointmentRow and v = a and e = TypeError] given
      by blast
    then obtain v where "appointmentRow v = Inl e"
      using createCsvBuffer_Inl by blast
    then have "e = TypeError"
      by (simp add: appointmentRow_cases split: option.splits)
    with e show ?thesis by simp
  qed
  have "symptomScoreRow s = Inl TypeError \<longleftrightarrow>
      overallScore (content s) = None \<or> dizzinessScore (content s) = None
      \<or> date (content s) = None"
    by (auto simp: symptomScoreRow_cases split: option.splits)
  moreover have "appointmentRow a = Inl TypeError \<longleftrightarrow>
      created (content a) = None \<or> start (content a) = None \<or> end' (content a) = None"
    by (auto simp: appointmentRow_cases split: option.splits)
  moreover have "symptomScoreRow s \<noteq> Inl TypeError \<longrightarrow>
      (\<exists>cells. symptomScoreRow s = Inr cells \<and> length cells = 9)"
    by (auto simp: symptomScoreRow_cases split: option.splits)
  moreover have "appointmentRow a \<noteq> Inl TypeError \<longrightarrow>
      (\<exists>c b e. appointmentRow a =
         Inr [Some (id' a), status (content a), Some (toISOString c), Some (toISOString b),
              Some (toISOString e)])"
    by (auto simp: appointmentRow_cases split: option.splits)
  ultimately show ?thesis using scores appointments by blast
qed

theorem required_fields_unguarded_witness:
  "symptomScoreRow example_score \<noteq> Inl TypeError
   \<and> appointmentRow example_appointment \<noteq> Inl TypeError
   \<and> (\<exists>cells. symptomScoreRow example_score = Inr cells \<and> length cells = 9)
   \<and> createCsvBuffer [''id''] [example_score, Document ''s2'' ((content example_score)\<lparr>date := None\<rparr>)]
        symptomScoreRow = Inl TypeError
   \<and> createCsvBuffer [''id'']
        [example_appointment, Document ''a2'' ((content example_appointment)\<lparr>end' := None\<rparr>)]
        appointmentRow = Inl TypeError"
proof -
  have present: "overallScore (content example_score) \<noteq> None"
    "dizzinessScore (content example_score) \<noteq> None" "date (content example_score) \<noteq> None"
    "created (content example_appointment) \<noteq> None" "start (content example_appointment) \<noteq> None"
    "end' (content example_appointment) \<noteq> None"
    by (simp_all add: example_score_def example_appointment_def)
  have complete: "symptomScoreRow example_score \<noteq> Inl TypeError
      \<and> appointmentRow example_appointment \<noteq> Inl TypeError
      \<and> (\<exists>cells. symptomScoreRow example_score = Inr cells \<and> length cells = 9)"
    using required_fields_unguarded [of example_score example_appointment "[]" "[]" "[]" "[]"]
      present by simp
  let ?s = "Document ''s2'' ((content example_score)\<lparr>date := None\<rparr>)"
  let ?a = "Document ''a2'' ((content example_appointment)\<lparr>end' := None\<rparr>)"
  have "date (content ?s) = None" and "end' (content ?a) = None"
    by simp_all
  then have "createCsvBuffer [''id''] [example_score, ?s] symptomScoreRow = Inl TypeError
      \<and> createCsvBuffer [''id''] [example_appointment, ?a] appointmentRow = Inl TypeError"
    using required_fields_unguarded
      [of ?s ?a "[example_score, ?s]" "[''id'']" "[example_appointment, ?a]" "[''id'']"]
    by simp
  with complete show ?thesis by simp
qed

text \<open>
  For \<open>status\<close> the projection does not throw: an appointment with no status is projected,
  and its line in the table has an empty status cell.
\<close>

theorem appointment_without_status_counterexample:
  "status (content example_appointment_no_status) = None
   \<and> appointmentRow example_appointment_no_status
       = Inr [Some ''a1'', None, Some ''2025-01-05T21:41:30.000Z'',
              Some ''2025-02-01T09:00:00.000Z'', Some ''2025-02-01T09:30:00.000Z'']
   \<and> andThen (appointmentRow example_appointment_no_status) csv_line
       = Inr ''a1;;2025-01-05T21:41:30.000Z;2025-02-01T09:00:00.000Z;2025-02-01T09:30:00.000Z''"
  by (simp add: example_appointment_no_status_def example_appointment_def appointmentRow_def
      andThen_def invoke_def csv_line_def escapeCsvField_def semicolon_def newline_def
      quote_def)

section \<open>Properties of the archive assembly and of the exports\<close>

lemma andThen_Inr_iff: "andThen r f = Inr y \<longleftrightarrow> (\<exists>v. r = Inr v \<and> f v = Inr y)"
  by (cases r) (simp_all add: andThen_def)

lemma andThen_Inl_iff: "andThen r f = Inl e \<longleftrightarrow> r = Inl e \<or> (\<exists>v. r = Inr v \<and> f v = Inl e)"
  by (cases r) (simp_all add: andThen_def)

lemma await_Inl: "await q = Inl e \<Longrightarrow> \<exists>message. e = QueryFailure message"
  by (cases q) (auto simp: await_def)

lemmas addUser_defs =
  addUserAppointments_def addUserMedicationRequests_def addUserMessages_def
  addUserObservations_def addUserQuestionnaireResponses_def addUserSymptomScores_def

lemma row_errors:
  "appointmentRow a = Inl e \<Longrightarrow> e = TypeError"
  "symptomScoreRow s = Inl e \<Longrightarrow> e = TypeError"
  "medicationRequestRow m \<noteq> Inl e"
  "messageRow u \<noteq> Inl e"
  "observationRow ob \<noteq> Inl e"
  "bloodPressureRow constants ob \<noteq> Inl e"
  "questionnaireResponseRow constants r \<noteq> Inl e"
  "questionnaireRow i \<noteq> Inl e"
  by (simp_all add: appointmentRow_cases symptomScoreRow_cases medicationRequestRow_def
      messageRow_def observationRow_def bloodPressureRow_def questionnaireResponseRow_def
      questionnaireRow_def Let_def split: option.splits)

text \<open>A member of \<open>Promise.all\<close> fails or not whatever the archive holds when it runs.\<close>

lemma branch_failure:
  assumes "branch \<in> set (userBranches constants services userId)"
    and "branch archiver = Inl e"
  shows "branch archiver' = Inl e"
  using assms
  by (auto simp: userBranches_def addUser_defs andThen_def Let_def split: sum.splits if_splits)

lemma branch_error:
  assumes "branch \<in> set (userBranches constants services userId)"
    and "branch archiver = Inl e"
  shows "e = TypeError \<or> (\<exists>message. e = QueryFailure message)"
  using assms
  by (auto simp: userBranches_def addUser_defs andThen_Inl_iff Let_def row_errors
      split: if_splits dest!: await_Inl createCsvBuffer_Inl)

lemma promise_all_fails:
  assumes "branch \<in> set branches" and "\<And>archiver. \<exists>e. branch archiver = Inl e"
  shows "\<exists>e. promise_all branches archiver = Inl e"
  using assms(1)
proof (induction branches arbitrary: archiver)
  case Nil
  then show ?case by simp
next
  case (Cons b bs)
  show ?case
  proof (cases "b archiver")
    case (Inl e)
    then show ?thesis by (simp add: andThen_def)
  next
    case (Inr archiver')
    show ?thesis
    proof (cases "branch = b")
      case True
      with assms(2) [of archiver] Inr show ?thesis by simp
    next
      case False
      with Cons have "\<exists>e. promise_all bs archiver' = Inl e" by simp
      with Inr show ?thesis by (simp add: andThen_def)
    qed
  qed
qed

lemma promise_all_error:
  "promise_all branches archiver = Inl e \<Longrightarrow>
     \<exists>branch \<in> set branches. \<exists>archiver'. branch archiver' = Inl e"
  by (induction branches arbitrary: archiver) (auto simp: andThen_Inl_iff)

lemma forEachUser_fails:
  assumes "userId \<in> set userIds"
    and "branch \<in> set (userBranches constants services userId)"
    and "branch archiver0 = Inl e"
  shows "\<exists>e'. forEachUser constants services userIds archiver = Inl e'"
  using assms(1)
proof (induction userIds arbitrary: archiver)
  case Nil
  then show ?case by simp
next
  case (Cons u us)
  show ?case
  proof (cases "promise_all (userBranches constants services u) archiver")
    case (Inl e')
    then show ?thesis by (simp add: andThen_def)
  next
    case (Inr archiver')
    have "u \<noteq> userId"
    proof
      assume "u = userId"
      moreover have "\<exists>e'. promise_all (userBranches constants services userId) archiver = Inl e'"
        using assms(2) branch_failure [OF assms(2) assms(3)]
        by (intro promise_all_fails [where branch = branch]) auto
      ultimately show False using Inr by simp
    qed
    with Cons have "\<exists>e'. forEachUser constants services us archiver' = Inl e'" by simp
    with Inr show ?thesis by (simp add: andThen_def)
  qed
qed

lemma forEachUser_error:
  "forEachUser constants services userIds archiver = Inl e \<Longrightarrow>
     e = TypeError \<or> (\<exists>message. e = QueryFailure message)"
proof (induction userIds arbitrary: archiver)
  case Nil
  then show ?case by simp
next
  case (Cons u us)
  then show ?case
    by (auto simp: andThen_Inl_iff dest!: promise_all_error dest: branch_error)
qed

lemma createCsvBuffer_succeeds:
  assumes "\<And>v. v \<in> set values \<Longrightarrow> \<exists>cells. row v = Inr cells"
  shows "\<exists>buffer. createCsvBuffer headers values row = Inr buffer"
proof (cases "createCsvBuffer headers values row")
  case (Inl e)
  then obtain v where "v \<in> set values" "row v = Inl e"
    using createCsvBuffer_Inl by blast
  with assms show ?thesis by fastforce
next
  case (Inr buffer)
  then show ?thesis by simp
qed

lemma addQuestionnaireTables_names:
  "\<exists>archiver'. addQuestionnaireTables found archiver = Inr archiver'
     \<and> map fst archiver' = map fst archiver @ map questionnaireEntryName found"
proof (induction found arbitrary: archiver)
  case Nil
  show ?case by simp
next
  case (Cons q found)
  obtain buffer where
    "createCsvBuffer [''linkId'', ''text'', ''type'', ''options''] (questionnaireItems q)
       questionnaireRow = Inr buffer"
    using createCsvBuffer_succeeds [where row = questionnaireRow]
    by (auto simp: questionnaireRow_def Let_def)
  then show ?case
    using Cons [of "append archiver buffer (''questionnaire_'' @ id' q @ ''.csv'')"]
    by (auto simp: andThen_def append_def questionnaireEntryName_def)
qed

lemma addQuestionnaires_Inl:
  "addQuestionnaires services archiver = Inl e \<Longrightarrow> \<exists>message. e = QueryFailure message"
proof -
  assume failed: "addQuestionnaires services archiver = Inl e"
  have "addQuestionnaireTables found archiver \<noteq> Inl e" for found
    using addQuestionnaireTables_names [of found archiver] by auto
  with failed have "await (questionnaires services) = Inl e"
    by (auto simp: addQuestionnaires_def andThen_Inl_iff)
  then show ?thesis by (rule await_Inl)
qed

lemma generatePatients_error:
  "generatePatients constants services userIds archiver = Inl e \<Longrightarrow>
     e = TypeError \<or> (\<exists>message. e = QueryFailure message)"
  by (auto simp: generatePatients_def andThen_Inl_iff
      dest: addQuestionnaires_Inl forEachUser_error)

lemma generatePatients_fails:
  assumes "userId \<in> set userIds"
    and "branch \<in> set (userBranches constants services userId)"
    and "branch archiver0 = Inl e"
  shows "\<exists>e'. generatePatients constants services userIds archiver = Inl e'"
proof (cases "addQuestionnaires services archiver")
  case (Inl e')
  then show ?thesis by (simp add: generatePatients_def andThen_def)
next
  case (Inr archiver')
  with forEachUser_fails [OF assms, of archiver'] show ?thesis
    by (simp add: generatePatients_def andThen_def)
qed

lemma promise_all_append:
  "promise_all (branches @ branches') archiver
     = andThen (promise_all branches archiver) (promise_all branches')"
  by (induction branches arbitrary: archiver) (simp_all add: andThen_def split: sum.splits)

lemma addUser_names:
  "addUserAppointments services userId archiver = Inr archiver' \<Longrightarrow>
     map fst archiver' = map fst archiver @ [userId @ ''/appointments.csv'']"
  "addUserMedicationRequests services userId archiver = Inr archiver' \<Longrightarrow>
     map fst archiver' = map fst archiver @ [userId @ ''/medicationRequests.csv'']"
  "addUserMessages services userId archiver = Inr archiver' \<Longrightarrow>
     map fst archiver' = map fst archiver @ [userId @ ''/messages.csv'']"
  "addUserObservations constants services userId collection archiver = Inr archiver' \<Longrightarrow>
     map fst archiver' = map fst archiver @ [userId @ ''/'' @ collection @ ''.csv'']"
  "addUserQuestionnaireResponses constants services userId archiver = Inr archiver' \<Longrightarrow>
     map fst archiver' = map fst archiver @ [userId @ ''/questionnaireResponses_kccq.csv'']"
  "addUserSymptomScores services userId archiver = Inr archiver' \<Longrightarrow>
     map fst archiver' = map fst archiver @ [userId @ ''/symptomScores.csv'']"
  by (auto simp: addUser_defs andThen_Inr_iff append_def Let_def)

lemma observations_names:
  "promise_all (map (\<lambda>collection. addUserObservations constants services userId collection)
      collections) archiver = Inr archiver' \<Longrightarrow>
     map fst archiver'
       = map fst archiver @ map (\<lambda>collection. userId @ ''/'' @ collection @ ''.csv'') collections"
  by (induction collections arbitrary: archiver)
     (auto simp: andThen_Inr_iff dest!: addUser_names(4))

lemma userBranches_names:
  assumes "promise_all (userBranches constants services userId) archiver = Inr archiver'"
  shows "map fst archiver' = map fst archiver @ userEntryNames constants userId"
proof -
  from assms obtain a1 a2 a3 a4 a5 where
    "addUserAppointments services userId archiver = Inr a1"
    "addUserMedicationRequests services userId a1 = Inr a2"
    "addUserMessages services userId a2 = Inr a3"
    "promise_all (map (\<lambda>collection. addUserObservations constants services userId collection)
       (observationCollections constants)) a3 = Inr a4"
    "addUserQuestionnaireResponses constants services userId a4 = Inr a5"
    "addUserSymptomScores services userId a5 = Inr archiver'"
    by (auto simp: userBranches_def promise_all_append andThen_Inr_iff)
  then show ?thesis
    by (simp add: userEntryNames_def addUser_names observations_names)
qed

lemma forEachUser_names:
  "forEachUser constants services userIds archiver = Inr archiver' \<Longrightarrow>
     map fst archiver' = map fst archiver @ concat (map (userEntryNames constants) userIds)"
  by (induction userIds arbitrary: archiver)
     (auto simp: andThen_Inr_iff dest!: userBranches_names)

lemma generatePatients_names:
  assumes "generatePatients constants services userIds [] = Inr archiver'"
  shows "\<exists>found. questionnaires services = Inr found
     \<and> map fst archiver'
         = map questionnaireEntryName found @ concat (map (userEntryNames constants) userIds)"
proof -
  from assms obtain a1 where a1: "addQuestionnaires services [] = Inr a1"
    and rest: "forEachUser constants services userIds a1 = Inr archiver'"
    by (auto simp: generatePatients_def andThen_Inr_iff)
  from a1 obtain found where found: "questionnaires services = Inr found"
    and tables: "addQuestionnaireTables found [] = Inr a1"
    by (cases "questionnaires services")
       (auto simp: addQuestionnaires_def andThen_Inr_iff await_def)
  have "map fst a1 = map questionnaireEntryName found"
    using addQuestionnaireTables_names [of found "[]"] tables by auto
  with forEachUser_names [OF rest] found show ?thesis by simp
qed

lemma settled_stays:
  "settled st = Some outcome \<Longrightarrow> settled (foldl on_event st events) = Some outcome"
proof (induction events arbitrary: st)
  case Nil
  then show ?case by simp
next
  case (Cons ev events)
  then have "settled (on_event st ev) = Some outcome"
    by (cases ev) (simp_all add: settle_def)
  with Cons.IH show ?case by simp
qed

lemma no_end_no_buffer:
  "End \<notin> set events \<Longrightarrow> settled (foldl on_event st events) = Some (Inr buffer) \<Longrightarrow>
     settled st = Some (Inr buffer)"
proof (induction events arbitrary: st)
  case Nil
  then show ?case by simp
next
  case (Cons ev events)
  then have "settled (on_event st ev) = Some (Inr buffer)" by simp
  with Cons.prems(1) show ?case
    by (cases ev) (auto simp: settle_def split: option.splits)
qed

lemma error_before_end:
  assumes "End \<notin> set before" and "settled st = None"
  shows "\<exists>message'. settled (foldl on_event st (before @ Error message # rest))
           = Some (Inl (WriterError message'))"
  using assms
proof (induction before arbitrary: st)
  case Nil
  then show ?case by (simp add: settle_def settled_stays)
next
  case (Cons ev before)
  show ?case
  proof (cases ev)
    case (Data chunk)
    with Cons show ?thesis by simp
  next
    case End
    with Cons.prems show ?thesis by simp
  next
    case (Error message')
    with Cons.prems have "settled (on_event st ev) = Some (Inl (WriterError message'))"
      by (simp add: settle_def)
    then have "settled (foldl on_event (on_event st ev) (before @ Error message # rest))
        = Some (Inl (WriterError message'))"
      by (rule settled_stays)
    then show ?thesis by auto
  qed
qed

lemma settled_error:
  "settled (foldl on_event st events) = Some (Inl e) \<Longrightarrow>
     settled st = Some (Inl e) \<or> (\<exists>message. e = WriterError message)"
proof (induction events arbitrary: st)
  case Nil
  then show ?case by simp
next
  case (Cons ev events)
  then have "settled (on_event st ev) = Some (Inl e) \<or> (\<exists>message. e = WriterError message)"
    by simp
  then show ?case
    by (cases ev) (auto simp: settle_def split: option.splits)
qed

lemma createZipBuffer_error:
  assumes "createZipBuffer generate writer = Some (Inl e)"
  shows "generate [] = Inl e \<or> (\<exists>message. e = WriterError message)"
proof (cases "generate []")
  case (Inl e')
  let ?st = "foldl on_event \<lparr>chunks = [], settled = None\<rparr> (during_generation writer)"
  from assms Inl have "settled (settle (Inl e') ?st) = Some (Inl e)"
    by (simp add: createZipBuffer_def Let_def)
  then have "e = e' \<or> settled ?st = Some (Inl e)"
    by (auto simp: settle_def split: option.splits)
  with Inl show ?thesis using settled_error [of "\<lparr>chunks = [], settled = None\<rparr>"] by auto
next
  case (Inr archive)
  with assms show ?thesis
    using settled_error [of "\<lparr>chunks = [], settled = None\<rparr>"
        "during_generation writer @ after_finalize writer archive" e]
    by (simp add: createZipBuffer_def Let_def)
qed

lemma createZipBuffer_generate_fails:
  assumes "generate [] = Inl e" and "End \<notin> set (during_generation writer)"
  shows "\<exists>e'. createZipBuffer generate writer = Some (Inl e')"
proof -
  let ?st = "foldl on_event \<lparr>chunks = [], settled = None\<rparr> (during_generation writer)"
  have "settled ?st \<noteq> Some (Inr buffer)" for buffer
    using no_end_no_buffer [OF assms(2), of "\<lparr>chunks = [], settled = None\<rparr>" buffer] by auto
  then have "\<exists>e'. settled (settle (Inl e) ?st) = Some (Inl e')"
  proof (cases "settled ?st")
    case None
    then show ?thesis by (simp add: settle_def)
  next
    case (Some outcome)
    with \<open>\<And>buffer. settled ?st \<noteq> Some (Inr buffer)\<close> obtain e' where "outcome = Inl e'"
      by (cases outcome) auto
    with Some show ?thesis by (simp add: settle_def)
  qed
  with assms(1) show ?thesis by (simp add: createZipBuffer_def Let_def)
qed

lemma data_then_end:
  "settled (foldl on_event \<lparr>chunks = cs, settled = None\<rparr> (map Data data @ [End]))
     = Some (Inr (concat (cs @ data)))"
proof (induction data arbitrary: cs)
  case Nil
  show ?case by (simp add: settle_def)
next
  case (Cons d data)
  from Cons [of "cs @ [d]"] show ?case by simp
qed

lemma rows_succeed:
  "\<exists>cells. medicationRequestRow m = Inr cells"
  "\<exists>cells. messageRow u = Inr cells"
  "\<exists>cells. observationRow ob = Inr cells"
  "\<exists>cells. bloodPressureRow constants ob = Inr cells"
  "\<exists>cells. questionnaireResponseRow constants r = Inr cells"
  by (simp_all add: medicationRequestRow_def messageRow_def observationRow_def
      bloodPressureRow_def questionnaireResponseRow_def Let_def)

lemma answered_iff: "answered q \<longleftrightarrow> (\<exists>v. q = Inr v)"
  by (cases q) (simp_all add: answered_def)

lemma add_table_succeeds:
  assumes "q = Inr values"
    and "\<And>v. v \<in> set (select values) \<Longrightarrow> \<exists>cells. row v = Inr cells"
  shows "\<exists>archiver'.
    andThen (await q) (\<lambda>found.
      andThen (createCsvBuffer headers (select found) row) (\<lambda>buffer.
        Inr (append archiver buffer name))) = Inr archiver'"
proof -
  obtain buffer where "createCsvBuffer headers (select values) row = Inr buffer"
    using createCsvBuffer_succeeds [of "select values" row headers] assms(2) by blast
  then show ?thesis
    by (simp add: assms(1) await_def andThen_def)
qed

lemma branch_succeeds:
  assumes "user_answered constants services userId"
    and "branch \<in> set (userBranches constants services userId)"
  shows "\<exists>archiver'. branch archiver = Inr archiver'"
proof -
  from assms(1) obtain appointments medications messages responses scores
    where appointments: "userAppointments services userId = Inr appointments"
      "\<forall>a \<in> set appointments. created (content a) \<noteq> None \<and> start (content a) \<noteq> None
         \<and> end' (content a) \<noteq> None"
    and medications: "userMedicationRequests services userId = Inr medications"
    and messages: "userMessages services userId = Inr messages"
    and observations: "\<forall>collection \<in> set (observationCollections constants).
        \<exists>found. userObservations services userId collection = Inr found"
    and responses: "userQuestionnaireResponses services userId = Inr responses"
    and scores: "userSymptomScores services userId = Inr scores"
      "\<forall>s \<in> set scores. overallScore (content s) \<noteq> None \<and> dizzinessScore (content s) \<noteq> None
         \<and> date (content s) \<noteq> None"
    by (auto simp: user_answered_def answered_iff list_all_iff split: sum.splits)
  have a1: "\<exists>archiver'. addUserAppointments services userId archiver = Inr archiver'"
    unfolding addUserAppointments_def
    using appointments(1)
  proof (rule add_table_succeeds [where select = "\<lambda>found. found"])
    fix v
    assume "v \<in> set appointments"
    with appointments(2) show "\<exists>cells. appointmentRow v = Inr cells"
      by (auto simp: appointmentRow_cases)
  qed
  have a2: "\<exists>archiver'. addUserMedicationRequests services userId archiver = Inr archiver'"
    unfolding addUserMedicationRequests_def
    using medications
    by (rule add_table_succeeds [where select = "\<lambda>found. found"]) (rule rows_succeed)
  have a3: "\<exists>archiver'. addUserMessages services userId archiver = Inr archiver'"
    unfolding addUserMessages_def
    using messages
    by (rule add_table_succeeds [where select = "\<lambda>found. found"]) (rule rows_succeed)
  have a4: "\<exists>archiver'. addUserObservations constants services userId collection archiver
      = Inr archiver'"
    if member: "collection \<in> set (observationCollections constants)" for collection
  proof -
    from observations member obtain found
      where found: "userObservations services userId collection = Inr found"
      by blast
    show ?thesis
    proof (cases "collection = bloodPressure constants")
      case True
      have "\<exists>archiver'.
        andThen (await (userObservations services userId collection)) (\<lambda>observations.
          andThen (createCsvBuffer
              [''id'', ''systolicValue'', ''systolicUnit'', ''diastolicValue'',
               ''diastolicUnit'', ''effectiveDateTime'']
              observations (bloodPressureRow constants)) (\<lambda>buffer.
            Inr (append archiver buffer (userId @ ''/'' @ collection @ ''.csv''))))
          = Inr archiver'"
        using found
        by (rule add_table_succeeds [where select = "\<lambda>found. found"]) (rule rows_succeed)
      with True show ?thesis by (simp add: addUserObservations_def)
    next
      case False
      have "\<exists>archiver'.
        andThen (await (userObservations services userId collection)) (\<lambda>observations.
          andThen (createCsvBuffer [''id'', ''value'', ''unit'', ''effectiveDateTime'']
              observations observationRow) (\<lambda>buffer.
            Inr (append archiver buffer (userId @ ''/'' @ collection @ ''.csv''))))
          = Inr archiver'"
        using found
        by (rule add_table_succeeds [where select = "\<lambda>found. found"]) (rule rows_succeed)
      with False show ?thesis by (simp add: addUserObservations_def)
    qed
  qed
  have a5: "\<exists>archiver'. addUserQuestionnaireResponses constants services userId archiver
      = Inr archiver'"
    unfolding addUserQuestionnaireResponses_def Let_def
    using responses
    by (rule add_table_succeeds
          [where select = "filter (\<lambda>response. questionnaire (content response)
              = Some (kccqUrl constants))"])
       (rule rows_succeed)
  have a6: "\<exists>archiver'. addUserSymptomScores services userId archiver = Inr archiver'"
    unfolding addUserSymptomScores_def
    using scores(1)
  proof (rule add_table_succeeds [where select = "\<lambda>found. found"])
    fix v
    assume "v \<in> set scores"
    with scores(2) show "\<exists>cells. symptomScoreRow v = Inr cells"
      by (auto simp: symptomScoreRow_cases)
  qed
  from assms(2) a1 a2 a3 a4 a5 a6 show ?thesis
    by (auto simp: userBranches_def)
qed

lemma promise_all_succeeds:
  assumes "\<And>branch archiver. branch \<in> set branches \<Longrightarrow> \<exists>archiver'. branch archiver = Inr archiver'"
  shows "\<exists>archiver'. promise_all branches archiver = Inr archiver'"
  using assms
proof (induction branches arbitrary: archiver)
  case Nil
  show ?case by simp
next
  case (Cons b bs)
  obtain a1 where "b archiver = Inr a1"
    using Cons.prems [of b archiver] by auto
  moreover obtain a2 where "promise_all bs a1 = Inr a2"
    using Cons.IH [of a1] Cons.prems by auto
  ultimately show ?case by (simp add: andThen_def)
qed

lemma forEachUser_succeeds:
  assumes "\<forall>userId \<in> set userIds. user_answered constants services userId"
  shows "\<exists>archiver'. forEachUser constants services userIds archiver = Inr archiver'"
  using assms
proof (induction userIds arbitrary: archiver)
  case Nil
  show ?case by simp
next
  case (Cons u us)
  then have "user_answered constants services u" by simp
  then obtain a1 where "promise_all (userBranches constants services u) archiver = Inr a1"
    using promise_all_succeeds [of "userBranches constants services u" archiver]
      branch_succeeds [of constants services u]
    by blast
  moreover obtain a2 where "forEachUser constants services us a1 = Inr a2"
    using Cons.IH [of a1] Cons.prems by auto
  ultimately show ?case by (simp add: andThen_def)
qed

lemma generatePatients_succeeds:
  assumes "questionnaires services = Inr found"
    and "\<forall>userId \<in> set userIds. user_answered constants services userId"
  shows "\<exists>archive. generatePatients constants services userIds [] = Inr archive"
proof -
  obtain a1 where "addQuestionnaireTables found [] = Inr a1"
    using addQuestionnaireTables_names [of found "[]"] by auto
  moreover obtain a2 where "forEachUser constants services userIds a1 = Inr a2"
    using forEachUser_succeeds [OF assms(2), of a1] by auto
  ultimately show ?thesis
    by (simp add: generatePatients_def addQuestionnaires_def assms(1) await_def andThen_def)
qed

lemma branch_appends:
  assumes "branch \<in> set (userBranches constants services userId)"
    and "branch archiver = Inr archiver'"
  shows "\<exists>entry. archiver' = archiver @ [entry] \<and> branch [] = Inr [entry]"
  using assms
  by (auto simp: userBranches_def addUser_defs andThen_Inr_iff append_def Let_def
      split: if_splits)

lemma promise_all_entries:
  assumes "\<And>branch archiver archiver'. branch \<in> set branches \<Longrightarrow> branch archiver = Inr archiver' \<Longrightarrow>
      \<exists>entry. archiver' = archiver @ [entry] \<and> branch [] = Inr [entry]"
    and "promise_all branches archiver = Inr archiver'"
  shows "set archiver \<subseteq> set archiver'
    \<and> (\<forall>branch \<in> set branches. \<exists>entry. branch [] = Inr [entry] \<and> entry \<in> set archiver')"
  using assms
proof (induction branches arbitrary: archiver)
  case Nil
  then show ?case by simp
next
  case (Cons b bs)
  from Cons.prems(2) obtain a1 where first: "b archiver = Inr a1"
    and rest: "promise_all bs a1 = Inr archiver'"
    by (auto simp: andThen_Inr_iff)
  from Cons.prems(1) [of b archiver a1] first obtain entry
    where entry: "a1 = archiver @ [entry]" "b [] = Inr [entry]"
    by auto
  have "set a1 \<subseteq> set archiver'
      \<and> (\<forall>branch \<in> set bs. \<exists>entry. branch [] = Inr [entry] \<and> entry \<in> set archiver')"
    using Cons.IH [OF _ rest] Cons.prems(1) by simp
  with entry show ?case by (cases entry) auto
qed

lemma forEachUser_entries:
  assumes "forEachUser constants services userIds archiver = Inr archiver'"
  shows "set archiver \<subseteq> set archiver'
    \<and> (\<forall>userId \<in> set userIds. \<forall>branch \<in> set (userBranches constants services userId).
          \<exists>entry. branch [] = Inr [entry] \<and> entry \<in> set archiver')"
  using assms
proof (induction userIds arbitrary: archiver)
  case Nil
  then show ?case by simp
next
  case (Cons u us)
  from Cons.prems obtain a1
    where first: "promise_all (userBranches constants services u) archiver = Inr a1"
      and rest: "forEachUser constants services us a1 = Inr archiver'"
    by (auto simp: andThen_Inr_iff)
  have mine: "set archiver \<subseteq> set a1
      \<and> (\<forall>branch \<in> set (userBranches constants services u).
            \<exists>entry. branch [] = Inr [entry] \<and> entry \<in> set a1)"
    using branch_appends [of _ constants services u]
    by (intro promise_all_entries [OF _ first]) blast
  have others: "set a1 \<subseteq> set archiver'
      \<and> (\<forall>userId \<in> set us. \<forall>branch \<in> set (userBranches constants services userId).
            \<exists>entry. branch [] = Inr [entry] \<and> entry \<in> set archiver')"
    using Cons.IH [OF rest] .
  from mine others show ?case by (simp only: set_simps ball_simps) blast
qed

lemma generatePatients_appointments:
  assumes "generatePatients constants services userIds [] = Inr archive"
    and "userId \<in> set userIds"
  shows "\<exists>appointments buffer.
    userAppointments services userId = Inr appointments
    \<and> createCsvBuffer [''id'', ''status'', ''created'', ''start'', ''end''] appointments
          appointmentRow = Inr buffer
    \<and> (userId @ ''/appointments.csv'', buffer) \<in> set archive"
proof -
  from assms(1) obtain a1 where "forEachUser constants services userIds a1 = Inr archive"
    by (auto simp: generatePatients_def andThen_Inr_iff)
  from forEachUser_entries [OF this] assms(2)
  have "\<forall>branch \<in> set (userBranches constants services userId).
      \<exists>entry. branch [] = Inr [entry] \<and> entry \<in> set archive"
    by blast
  moreover have "addUserAppointments services userId \<in> set (userBranches constants services userId)"
    by (simp add: userBranches_def)
  ultimately obtain entry where "addUserAppointments services userId [] = Inr [entry]"
    and "entry \<in> set archive"
    by blast
  then show ?thesis
    by (cases "userAppointments services userId")
       (auto simp: addUserAppointments_def andThen_Inr_iff await_def append_def)
qed

text \<open>
  C6. The organization export fetches the patients once and keeps those whose
  \<open>organization\<close> is the given id, by equality of strings; the archive is built for their
  ids, in the order of the store. When the store answers for each of these users, the
  archive is generated, its entries are the questionnaire tables and the tables of exactly
  these users (the appointments entry of each holding the table of that user's
  appointments), and a writer that emits its chunks and then \<open>end\<close> makes the export
  return them. When no patient matches, the generator still succeeds if the questionnaire query
  does, and the archive holds the questionnaire tables only.
\<close>

theorem exportPatientDataForOrganization_filter:
  "(getAllPatients services = Inr patients \<longrightarrow>
      exportPatientDataForOrganization constants services writer organizationId
        = createZipBuffer
            (generatePatients constants services
               (map id' (filter (\<lambda>p. organization (content p) = Some organizationId) patients)))
            writer)
   \<and> (getAllPatients services = Inr patients \<and> questionnaires services = Inr found
        \<and> (\<forall>p \<in> set patients. organization (content p) = Some organizationId \<longrightarrow>
              user_answered constants services (id' p)) \<longrightarrow>
        (\<exists>archive.
           generatePatients constants services
             (map id' (filter (\<lambda>p. organization (content p) = Some organizationId) patients)) []
             = Inr archive
           \<and> set (map fst archive)
               = set (map questionnaireEntryName found)
                 \<union> (\<Union>userId \<in> set (map id'
                        (filter (\<lambda>p. organization (content p) = Some organizationId) patients)).
                      set (userEntryNames constants userId))
           \<and> (\<forall>p \<in> set patients. organization (content p) = Some organizationId \<longrightarrow>
                 (\<exists>appointments buffer.
                    userAppointments services (id' p) = Inr appointments
                    \<and> createCsvBuffer [''id'', ''status'', ''created'', ''start'', ''end'']
                          appointments appointmentRow = Inr buffer
                    \<and> (id' p @ ''/appointments.csv'', buffer) \<in> set archive))
           \<and> (\<forall>data. during_generation writer = []
                  \<and> after_finalize writer archive = map Data data @ [End] \<longrightarrow>
                 exportPatientDataForOrganization constants services writer organizationId
                   = Some (Inr (concat data)))))
   \<and> (generatePatients constants services userIds [] = Inr archive' \<longrightarrow>
        (\<exists>found. questionnaires services = Inr found
           \<and> set (map fst archive') = set (map questionnaireEntryName found)
                \<union> (\<Union>userId \<in> set userIds. set (userEntryNames constants userId))))
   \<and> (getAllPatients services = Inr patients
        \<and> (\<forall>p \<in> set patients. organization (content p) \<noteq> Some organizationId)
        \<and> questionnaires services = Inr found \<longrightarrow>
        (\<exists>tables. generatePatients constants services [] [] = Inr tables
           \<and> map fst tables = map questionnaireEntryName found
           \<and> (\<forall>data. during_generation writer = []
                  \<and> after_finalize writer tables = map Data data @ [End] \<longrightarrow>
                 exportPatientDataForOrganization constants services writer organizationId
                   = Some (Inr (concat data)))))"
proof (intro conjI impI)
  assume fetched: "getAllPatients services = Inr patients"
  show "exportPatientDataForOrganization constants services writer organizationId
      = createZipBuffer
          (generatePatients constants services
             (map id' (filter (\<lambda>p. organization (content p) = Some organizationId) patients)))
          writer"
    by (simp add: exportPatientDataForOrganization_def fetched await_def
        createPatientsZipBuffer_def)
next
  let ?userIds = "map id' (filter (\<lambda>p. organization (content p) = Some organizationId) patients)"
  assume given: "getAllPatients services = Inr patients \<and> questionnaires services = Inr found
    \<and> (\<forall>p \<in> set patients. organization (content p) = Some organizationId \<longrightarrow>
          user_answered constants services (id' p))"
  then have "\<forall>userId \<in> set ?userIds. user_answered constants services userId"
    by auto
  with given obtain archive where
    generated: "generatePatients constants services ?userIds [] = Inr archive"
    using generatePatients_succeeds [of services found ?userIds constants] by blast
  then obtain found' where "questionnaires services = Inr found'"
    and "map fst archive = map questionnaireEntryName found'
      @ concat (map (userEntryNames constants) ?userIds)"
    using generatePatients_names by blast
  with given have names: "set (map fst archive)
      = set (map questionnaireEntryName found)
        \<union> (\<Union>userId \<in> set ?userIds. set (userEntryNames constants userId))"
    by simp
  have tables: "\<forall>p \<in> set patients. organization (content p) = Some organizationId \<longrightarrow>
      (\<exists>appointments buffer.
         userAppointments services (id' p) = Inr appointments
         \<and> createCsvBuffer [''id'', ''status'', ''created'', ''start'', ''end'']
               appointments appointmentRow = Inr buffer
         \<and> (id' p @ ''/appointments.csv'', buffer) \<in> set archive)"
  proof (intro ballI impI)
    fix p
    assume "p \<in> set patients" "organization (content p) = Some organizationId"
    then have "id' p \<in> set ?userIds" by auto
    with generated show "\<exists>appointments buffer.
         userAppointments services (id' p) = Inr appointments
         \<and> createCsvBuffer [''id'', ''status'', ''created'', ''start'', ''end'']
               appointments appointmentRow = Inr buffer
         \<and> (id' p @ ''/appointments.csv'', buffer) \<in> set archive"
      by (rule generatePatients_appointments)
  qed
  have returned: "\<forall>data. during_generation writer = []
        \<and> after_finalize writer archive = map Data data @ [End] \<longrightarrow>
      exportPatientDataForOrganization constants services writer organizationId
        = Some (Inr (concat data))"
  proof (intro allI impI)
    fix data
    assume "during_generation writer = [] \<and> after_finalize writer archive = map Data data @ [End]"
    then show "exportPatientDataForOrganization constants services writer organizationId
        = Some (Inr (concat data))"
      using given data_then_end [of "[]" data]
      by (simp add: exportPatientDataForOrganization_def await_def
          createPatientsZipBuffer_def createZipBuffer_def generated)
  qed
  show "\<exists>archive. generatePatients constants services ?userIds [] = Inr archive
      \<and> set (map fst archive)
          = set (map questionnaireEntryName found)
            \<union> (\<Union>userId \<in> set ?userIds. set (userEntryNames constants userId))
      \<and> (\<forall>p \<in> set patients. organization (content p) = Some organizationId \<longrightarrow>
            (\<exists>appointments buffer.
               userAppointments services (id' p) = Inr appointments
               \<and> createCsvBuffer [''id'', ''status'', ''created'', ''start'', ''end'']
                     appointments appointmentRow = Inr buffer
               \<and> (id' p @ ''/appointments.csv'', buffer) \<in> set archive))
      \<and> (\<forall>data. during_generation writer = []
             \<and> after_finalize writer archive = map Data data @ [End] \<longrightarrow>
            exportPatientDataForOrganization constants services writer organizationId
              = Some (Inr (concat data)))"
    by (intro exI [where x = archive] conjI generated names tables returned)
next
  assume "generatePatients constants services userIds [] = Inr archive'"
  then obtain found where "questionnaires services = Inr found"
    and "map fst archive' = map questionnaireEntryName found
      @ concat (map (userEntryNames constants) userIds)"
    using generatePatients_names by blast
  then have "questionnaires services = Inr found
    \<and> set (map fst archive') = set (map questionnaireEntryName found)
        \<union> (\<Union>userId \<in> set userIds. set (userEntryNames constants userId))"
    by simp
  then show "\<exists>found. questionnaires services = Inr found
    \<and> set (map fst archive') = set (map questionnaireEntryName found)
        \<union> (\<Union>userId \<in> set userIds. set (userEntryNames constants userId))" ..
next
  assume given: "getAllPatients services = Inr patients
    \<and> (\<forall>p \<in> set patients. organization (content p) \<noteq> Some organizationId)
    \<and> questionnaires services = Inr found"
  then have nobody: "filter (\<lambda>p. organization (content p) = Some organizationId) patients = []"
    by (simp add: filter_empty_conv)
  obtain tables where tables: "addQuestionnaireTables found [] = Inr tables"
    and layout: "map fst tables = map questionnaireEntryName found"
    using addQuestionnaireTables_names [of found "[]"] by auto
  have generated: "generatePatients constants services [] [] = Inr tables"
    using given
    by (simp add: generatePatients_def addQuestionnaires_def await_def andThen_def tables)
  have returned: "\<forall>data. during_generation writer = []
        \<and> after_finalize writer tables = map Data data @ [End] \<longrightarrow>
      exportPatientDataForOrganization constants services writer organizationId
        = Some (Inr (concat data))"
  proof (intro allI impI)
    fix data
    assume "during_generation writer = [] \<and> after_finalize writer tables = map Data data @ [End]"
    then show "exportPatientDataForOrganization constants services writer organizationId
        = Some (Inr (concat data))"
      using given data_then_end [of "[]" data]
      by (simp add: exportPatientDataForOrganization_def await_def nobody
          createPatientsZipBuffer_def createZipBuffer_def generated)
  qed
  show "\<exists>tables. generatePatients constants services [] [] = Inr tables
     \<and> map fst tables = map questionnaireEntryName found
     \<and> (\<forall>data. during_generation writer = []
            \<and> after_finalize writer tables = map Data data @ [End] \<longrightarrow>
           exportPatientDataForOrganization constants services writer organizationId
             = Some (Inr (concat data)))"
    by (intro exI [where x = tables] conjI generated layout returned)
qed

theorem exportPatientDataForOrganization_filter_witness:
  "(\<exists>archive.
      generatePatients example_constants example_services [''p0''] [] = Inr archive
      \<and> set (map fst archive)
          = {''questionnaire_0.csv'', ''p0/appointments.csv'', ''p0/medicationRequests.csv'',
             ''p0/messages.csv'', ''p0/bloodPressureObservations.csv'',
             ''p0/bodyWeightObservations.csv'', ''p0/questionnaireResponses_kccq.csv'',
             ''p0/symptomScores.csv''}
      \<and> (''p0/appointments.csv'',
           ''id;status;created;start;end'' @ [CHR 0x0A]
             @ ''a1;booked;2025-01-05T21:41:30.000Z;2025-02-01T09:00:00.000Z;2025-02-01T09:30:00.000Z'')
          \<in> set archive
      \<and> ''p1/appointments.csv'' \<notin> set (map fst archive)
      \<and> exportPatientDataForOrganization example_constants example_services example_writer
            ''stanford'' = Some (Inr (concat (map fst archive))))
   \<and> exportPatientDataForOrganization example_constants example_services example_writer ''stanford''
       = createZipBuffer (generatePatients example_constants example_services [''p0''])
           example_writer
   \<and> exportPatientDataForOrganization example_constants example_services example_writer ''ucsf''
       = Some (Inr ''questionnaire_0.csv'')"
proof -
  have fetched: "getAllPatients example_services = Inr example_patients"
    and query: "questionnaires example_services
      = Inr [Document ''0'' \<lparr>questionnaire_item = Some [example_tree]\<rparr>]"
    by (simp_all add: example_services_def)
  have ids: "map id' (filter (\<lambda>p. organization (content p) = Some ''stanford'') example_patients)
      = [''p0'']"
    by (simp add: example_patients_def)
  have answers: "\<forall>p \<in> set example_patients. organization (content p) = Some ''stanford'' \<longrightarrow>
      user_answered example_constants example_services (id' p)"
    by (simp add: example_patients_def user_answered_def answered_def example_services_def
        example_constants_def example_appointment_def example_score_def)
  have quiet: "during_generation example_writer = []"
    by (simp add: example_writer_def)
  have emitted: "after_finalize example_writer archive = map Data (map fst archive) @ [End]"
    for archive
    by (simp add: example_writer_def)
  note at_stanford = exportPatientDataForOrganization_filter
      [where services = example_services and patients = example_patients
        and organizationId = "''stanford''" and constants = example_constants
        and writer = example_writer
        and found = "[Document ''0'' \<lparr>questionnaire_item = Some [example_tree]\<rparr>]"]
  have relative: "exportPatientDataForOrganization example_constants example_services
      example_writer ''stanford''
        = createZipBuffer (generatePatients example_constants example_services [''p0''])
            example_writer"
    using mp [OF at_stanford [THEN conjunct1] fetched] unfolding ids .
  have "getAllPatients example_services = Inr example_patients
      \<and> questionnaires example_services
          = Inr [Document ''0'' \<lparr>questionnaire_item = Some [example_tree]\<rparr>]
      \<and> (\<forall>p \<in> set example_patients. organization (content p) = Some ''stanford'' \<longrightarrow>
            user_answered example_constants example_services (id' p))"
    by (intro conjI fetched query answers)
  from mp [OF at_stanford [THEN conjunct2, THEN conjunct1] this]
  obtain archive where
    generated: "generatePatients example_constants example_services
        (map id' (filter (\<lambda>p. organization (content p) = Some ''stanford'') example_patients)) []
        = Inr archive"
    and names: "set (map fst archive)
        = set (map questionnaireEntryName
            [Document ''0'' \<lparr>questionnaire_item = Some [example_tree]\<rparr>])
          \<union> (\<Union>userId \<in> set (map id'
                 (filter (\<lambda>p. organization (content p) = Some ''stanford'') example_patients)).
               set (userEntryNames example_constants userId))"
    and tables: "\<forall>p \<in> set example_patients. organization (content p) = Some ''stanford'' \<longrightarrow>
        (\<exists>appointments buffer.
           userAppointments example_services (id' p) = Inr appointments
           \<and> createCsvBuffer [''id'', ''status'', ''created'', ''start'', ''end'']
                 appointments appointmentRow = Inr buffer
           \<and> (id' p @ ''/appointments.csv'', buffer) \<in> set archive)"
    and returned: "\<forall>data. during_generation example_writer = []
          \<and> after_finalize example_writer archive = map Data data @ [End] \<longrightarrow>
        exportPatientDataForOrganization example_constants example_services example_writer
          ''stanford'' = Some (Inr (concat data))"
    by (elim exE conjE)
  from generated have generated': "generatePatients example_constants example_services [''p0''] []
      = Inr archive"
    unfolding ids .
  from names have names': "set (map fst archive)
      = {''questionnaire_0.csv'', ''p0/appointments.csv'', ''p0/medicationRequests.csv'',
         ''p0/messages.csv'', ''p0/bloodPressureObservations.csv'',
         ''p0/bodyWeightObservations.csv'', ''p0/questionnaireResponses_kccq.csv'',
         ''p0/symptomScores.csv''}"
    unfolding ids
    by (simp add: questionnaireEntryName_def userEntryNames_def example_constants_def
        insert_commute)
  have absent: "''p1/appointments.csv'' \<notin> set (map fst archive)"
    unfolding names' by simp
  have "Document ''p0'' \<lparr>organization = Some ''stanford''\<rparr> \<in> set example_patients"
    by (simp add: example_patients_def)
  with tables obtain appointments buffer
    where "userAppointments example_services ''p0'' = Inr appointments"
      and "createCsvBuffer [''id'', ''status'', ''created'', ''start'', ''end'']
            appointments appointmentRow = Inr buffer"
      and entry: "(''p0/appointments.csv'', buffer) \<in> set archive"
    by fastforce
  then have "createCsvBuffer [''id'', ''status'', ''created'', ''start'', ''end'']
      [example_appointment] appointmentRow = Inr buffer"
    by (simp add: example_services_def)
  then have "buffer = ''id;status;created;start;end'' @ [CHR 0x0A]
      @ ''a1;booked;2025-01-05T21:41:30.000Z;2025-02-01T09:00:00.000Z;2025-02-01T09:30:00.000Z''"
    by (simp add: createCsvBuffer_def csv_line_def escapeCsvField_def appointmentRow_def
        example_appointment_def andThen_def invoke_def semicolon_def newline_def quote_def)
  with entry have present: "(''p0/appointments.csv'',
           ''id;status;created;start;end'' @ [CHR 0x0A]
             @ ''a1;booked;2025-01-05T21:41:30.000Z;2025-02-01T09:00:00.000Z;2025-02-01T09:30:00.000Z'')
          \<in> set archive"
    by simp
  have "during_generation example_writer = []
      \<and> after_finalize example_writer archive = map Data (map fst archive) @ [End]"
    by (intro conjI quiet emitted)
  with returned have exported: "exportPatientDataForOrganization example_constants
      example_services example_writer ''stanford'' = Some (Inr (concat (map fst archive)))"
    by (elim allE [where x = "map fst archive"]) (rule mp)
  have matching: "\<exists>archive.
      generatePatients example_constants example_services [''p0''] [] = Inr archive
      \<and> set (map fst archive)
          = {''questionnaire_0.csv'', ''p0/appointments.csv'', ''p0/medicationRequests.csv'',
             ''p0/messages.csv'', ''p0/bloodPressureObservations.csv'',
             ''p0/bodyWeightObservations.csv'', ''p0/questionnaireResponses_kccq.csv'',
             ''p0/symptomScores.csv''}
      \<and> (''p0/appointments.csv'',
           ''id;status;created;start;end'' @ [CHR 0x0A]
             @ ''a1;booked;2025-01-05T21:41:30.000Z;2025-02-01T09:00:00.000Z;2025-02-01T09:30:00.000Z'')
          \<in> set archive
      \<and> ''p1/appointments.csv'' \<notin> set (map fst archive)
      \<and> exportPatientDataForOrganization example_constants example_services example_writer
            ''stanford'' = Some (Inr (concat (map fst archive)))"
    by (intro exI [where x = archive] conjI generated' names' present absent exported)
  note at_ucsf = exportPatientDataForOrganization_filter
      [where services = example_services and patients = example_patients
        and organizationId = "''ucsf''" and constants = example_constants
        and writer = example_writer
        and found = "[Document ''0'' \<lparr>questionnaire_item = Some [example_tree]\<rparr>]"]
  have nobody: "\<forall>p \<in> set example_patients. organization (content p) \<noteq> Some ''ucsf''"
    by (simp add: example_patients_def)
  have "getAllPatients example_services = Inr example_patients
      \<and> (\<forall>p \<in> set example_patients. organization (content p) \<noteq> Some ''ucsf'')
      \<and> questionnaires example_services
          = Inr [Document ''0'' \<lparr>questionnaire_item = Some [example_tree]\<rparr>]"
    by (intro conjI fetched nobody query)
  from mp [OF at_ucsf [THEN conjunct2, THEN conjunct2, THEN conjunct2] this]
  obtain tables where layout: "map fst tables
        = map questionnaireEntryName [Document ''0'' \<lparr>questionnaire_item = Some [example_tree]\<rparr>]"
    and resolved: "\<forall>data. during_generation example_writer = []
          \<and> after_finalize example_writer tables = map Data data @ [End] \<longrightarrow>
        exportPatientDataForOrganization example_constants example_services example_writer
          ''ucsf'' = Some (Inr (concat data))"
    by (elim exE conjE)
  have "during_generation example_writer = []
      \<and> after_finalize example_writer tables = map Data (map fst tables) @ [End]"
    by (intro conjI quiet emitted)
  with resolved have "exportPatientDataForOrganization example_constants example_services
      example_writer ''ucsf'' = Some (Inr (concat (map fst tables)))"
    by (elim allE [where x = "map fst tables"]) (rule mp)
  then have empty: "exportPatientDataForOrganization example_constants example_services
      example_writer ''ucsf'' = Some (Inr ''questionnaire_0.csv'')"
    unfolding layout by (simp add: questionnaireEntryName_def)
  show ?thesis
    by (intro conjI matching relative empty)
qed

text \<open>
  C7. When the user lookup returns no record, the single-user export fails with the
  not-found error and builds no archive. When it returns a patient, the export is the
  archive build for that patient's id, and whatever its outcome it is not a not-found
  error: the generator fails only with a rejected query or a \<open>TypeError\<close>, the writer only
  with an error of its own.
\<close>

theorem exportPatientDataForUser_not_found:
  "(getUser services userId = Inr None \<longrightarrow>
      exportPatientDataForUser constants services writer userId
        = Some (Inl (NotFound (''Patient with ID '' @ userId @ '' not found''))))
   \<and> (getUser services userId = Inr (Some patient) \<longrightarrow>
        exportPatientDataForUser constants services writer userId
          = createPatientsZipBuffer constants services writer [id' patient]
        \<and> (\<forall>message. exportPatientDataForUser constants services writer userId
              \<noteq> Some (Inl (NotFound message))))"
proof -
  have "createPatientsZipBuffer constants services writer userIds \<noteq> Some (Inl (NotFound message))"
    for userIds message
  proof
    assume "createPatientsZipBuffer constants services writer userIds
        = Some (Inl (NotFound message))"
    then have "generatePatients constants services userIds [] = Inl (NotFound message)"
      using createZipBuffer_error by (fastforce simp: createPatientsZipBuffer_def)
    then show False
      using generatePatients_error by fastforce
  qed
  then show ?thesis
    by (simp add: exportPatientDataForUser_def await_def)
qed

theorem exportPatientDataForUser_not_found_witness:
  "exportPatientDataForUser example_constants example_services example_writer ''nobody''
     = Some (Inl (NotFound ''Patient with ID nobody not found''))
   \<and> exportPatientDataForUser example_constants example_services example_writer ''p1''
     = createPatientsZipBuffer example_constants example_services example_writer [''p1'']
   \<and> exportPatientDataForUser example_constants example_services example_writer ''p1''
     \<noteq> Some (Inl (NotFound ''Patient with ID p1 not found''))"
proof -
  have absent: "getUser example_services ''nobody'' = Inr None"
    and present: "getUser example_services ''p1''
      = Inr (Some (Document ''p1'' \<lparr>organization = Some ''jhu''\<rparr>))"
    by (simp_all add: example_services_def example_patients_def)
  have rejected: "exportPatientDataForUser example_constants example_services example_writer
      ''nobody'' = Some (Inl (NotFound ''Patient with ID nobody not found''))"
    using absent exportPatientDataForUser_not_found
        [where services = example_services and userId = "''nobody''"
          and constants = example_constants and writer = example_writer]
    by simp
  have "getUser example_services ''p1''
        = Inr (Some (Document ''p1'' \<lparr>organization = Some ''jhu''\<rparr>)) \<longrightarrow>
      exportPatientDataForUser example_constants example_services example_writer ''p1''
        = createPatientsZipBuffer example_constants example_services example_writer
            [id' (Document ''p1'' \<lparr>organization = Some ''jhu''\<rparr>)]
      \<and> (\<forall>message. exportPatientDataForUser example_constants example_services example_writer
            ''p1'' \<noteq> Some (Inl (NotFound message)))"
    using exportPatientDataForUser_not_found
        [where services = example_services and userId = "''p1''"
          and patient = "Document ''p1'' \<lparr>organization = Some ''jhu''\<rparr>"
          and constants = example_constants and writer = example_writer]
    by (rule conjunct2)
  from this present have found: "exportPatientDataForUser example_constants example_services
        example_writer ''p1''
        = createPatientsZipBuffer example_constants example_services example_writer
            [id' (Document ''p1'' \<lparr>organization = Some ''jhu''\<rparr>)]
      \<and> (\<forall>message. exportPatientDataForUser example_constants example_services example_writer
            ''p1'' \<noteq> Some (Inl (NotFound message)))"
    by (rule mp)
  from found have "exportPatientDataForUser example_constants example_services example_writer
      ''p1'' = createPatientsZipBuffer example_constants example_services example_writer
            [id' (Document ''p1'' \<lparr>organization = Some ''jhu''\<rparr>)]"
    by (rule conjunct1)
  then have built: "exportPatientDataForUser example_constants example_services
      example_writer ''p1''
        = createPatientsZipBuffer example_constants example_services example_writer [''p1'']"
    by simp
  from found have "\<forall>message. exportPatientDataForUser example_constants example_services
      example_writer ''p1'' \<noteq> Some (Inl (NotFound message))"
    by (rule conjunct2)
  then have other: "exportPatientDataForUser example_constants example_services example_writer
      ''p1'' \<noteq> Some (Inl (NotFound ''Patient with ID p1 not found''))"
    by (rule spec)
  show ?thesis
    by (intro conjI rejected built other)
qed

text \<open>
  C8. The archive build returns no buffer when something fails. When the generator throws
  (the writer not having ended before \<open>finalize\<close> is called), the build is rejected. When
  the writer emits an error before it ends, the build is rejected. For the patient
  archive: a member of \<open>Promise.all\<close> of any user that fails (a rejected query, or a
  projection that throws, such as an appointment with no \<open>created\<close>) rejects the whole
  build, and so does a rejected questionnaire query. A buffer is returned only when the
  generator has returned.
\<close>

theorem failure_rejects_archive:
  "(generate [] = Inl e \<and> End \<notin> set (during_generation writer) \<longrightarrow>
      (\<exists>e'. createZipBuffer generate writer = Some (Inl e')))
   \<and> (generate [] = Inr archive
        \<and> during_generation writer @ after_finalize writer archive = before @ Error message # rest
        \<and> End \<notin> set before \<longrightarrow>
      (\<exists>e'. createZipBuffer generate writer = Some (Inl e')))
   \<and> (userId \<in> set userIds \<and> branch \<in> set (userBranches constants services userId)
        \<and> branch [] = Inl e \<and> End \<notin> set (during_generation writer) \<longrightarrow>
      (\<exists>e'. createPatientsZipBuffer constants services writer userIds = Some (Inl e')))
   \<and> (userAppointments services userId = Inr appointments \<and> a \<in> set appointments
        \<and> created (content a) = None \<longrightarrow>
      addUserAppointments services userId [] = Inl TypeError)
   \<and> (questionnaires services = Inl message \<and> End \<notin> set (during_generation writer) \<longrightarrow>
      (\<exists>e'. createPatientsZipBuffer constants services writer userIds = Some (Inl e')))
   \<and> (createZipBuffer generate writer = Some (Inr buffer)
        \<and> End \<notin> set (during_generation writer) \<longrightarrow>
      (\<exists>entries. generate [] = Inr entries))"
proof -
  have thrown: "\<exists>e'. createZipBuffer generate writer = Some (Inl e')"
    if "generate [] = Inl e" "End \<notin> set (during_generation writer)" for generate e
    using that by (rule createZipBuffer_generate_fails)
  have emitted: "\<exists>e'. createZipBuffer generate writer = Some (Inl e')"
    if generated: "generate [] = Inr archive"
      and events: "during_generation writer @ after_finalize writer archive
        = before @ Error message # rest"
      and first: "End \<notin> set before"
  proof -
    have "createZipBuffer generate writer
        = settled (foldl on_event \<lparr>chunks = [], settled = None\<rparr>
            (during_generation writer @ after_finalize writer archive))"
      by (simp add: createZipBuffer_def generated)
    with error_before_end [OF first, of "\<lparr>chunks = [], settled = None\<rparr>" message rest] events
    show ?thesis by auto
  qed
  have member: "\<exists>e'. createPatientsZipBuffer constants services writer userIds = Some (Inl e')"
    if failing: "userId \<in> set userIds" "branch \<in> set (userBranches constants services userId)"
      "branch [] = Inl e" and quiet: "End \<notin> set (during_generation writer)"
  proof -
    obtain e' where "generatePatients constants services userIds [] = Inl e'"
      using generatePatients_fails [OF failing] by blast
    with quiet show ?thesis
      unfolding createPatientsZipBuffer_def
      using createZipBuffer_generate_fails
        [where generate = "generatePatients constants services userIds"]
      by blast
  qed
  have projection: "addUserAppointments services userId [] = Inl TypeError"
    if fetched: "userAppointments services userId = Inr appointments"
      and listed: "a \<in> set appointments" and missing: "created (content a) = None"
  proof -
    have "appointmentRow a = Inl TypeError"
      using missing by (simp add: appointmentRow_cases)
    with listed obtain e' where e': "createCsvBuffer [''id'', ''status'', ''created'', ''start'', ''end'']
        appointments appointmentRow = Inl e'"
      using createCsvBuffer_fails [where row = appointmentRow and v = a and e = TypeError]
      by blast
    then have "e' = TypeError"
      using createCsvBuffer_Inl row_errors(1) by blast
    with e' fetched show ?thesis
      by (simp add: addUserAppointments_def await_def andThen_def)
  qed
  have query: "\<exists>e'. createPatientsZipBuffer constants services writer userIds = Some (Inl e')"
    if "questionnaires services = Inl message" "End \<notin> set (during_generation writer)"
  proof -
    have "generatePatients constants services userIds [] = Inl (QueryFailure message)"
      using that(1) by (simp add: generatePatients_def addQuestionnaires_def await_def andThen_def)
    with that(2) show ?thesis
      unfolding createPatientsZipBuffer_def
      using createZipBuffer_generate_fails
        [where generate = "generatePatients constants services userIds"]
      by blast
  qed
  have returned: "\<exists>entries. generate [] = Inr entries"
    if "createZipBuffer generate writer = Some (Inr buffer)"
      "End \<notin> set (during_generation writer)"
  proof (cases "generate []")
    case (Inl e')
    with createZipBuffer_generate_fails [of generate e' writer] that show ?thesis by auto
  next
    case (Inr entries)
    then show ?thesis by simp
  qed
  from thrown emitted member projection query returned show ?thesis by blast
qed

theorem failure_rejects_archive_witness:
  "(\<exists>e'. createPatientsZipBuffer example_constants failing_services example_writer
            [''p1'', ''p0''] = Some (Inl e'))
   \<and> (\<exists>e'. createZipBuffer (generatePatients example_constants example_services [])
            failing_writer = Some (Inl e'))
   \<and> addUserAppointments incomplete_services ''p0'' [] = Inl TypeError
   \<and> (\<exists>e'. createPatientsZipBuffer example_constants incomplete_services example_writer
            [''p0''] = Some (Inl e'))"
proof -
  have quiet: "End \<notin> set (during_generation example_writer)"
    by (simp add: example_writer_def)
  have rejected_query: "\<exists>e'. createPatientsZipBuffer example_constants failing_services
      example_writer [''p1'', ''p0''] = Some (Inl e')"
  proof (rule mp [OF failure_rejects_archive
        [where userId = "''p0''" and userIds = "[''p1'', ''p0'']"
          and branch = "addUserSymptomScores failing_services ''p0''"
          and constants = example_constants and services = failing_services
          and e = "QueryFailure ''unavailable''" and writer = example_writer,
          THEN conjunct2, THEN conjunct2, THEN conjunct1]])
    show "''p0'' \<in> set [''p1'', ''p0'']
        \<and> addUserSymptomScores failing_services ''p0''
            \<in> set (userBranches example_constants failing_services ''p0'')
        \<and> addUserSymptomScores failing_services ''p0'' [] = Inl (QueryFailure ''unavailable'')
        \<and> End \<notin> set (during_generation example_writer)"
      using quiet
      by (simp add: userBranches_def addUserSymptomScores_def failing_services_def
          await_def andThen_def)
  qed
  obtain archive where generated:
    "generatePatients example_constants example_services [] [] = Inr archive"
    using addQuestionnaireTables_names
      [of "[Document ''0'' \<lparr>questionnaire_item = Some [example_tree]\<rparr>]" "[]"]
    by (auto simp: generatePatients_def addQuestionnaires_def example_services_def await_def
        andThen_def)
  have writer_error: "\<exists>e'. createZipBuffer (generatePatients example_constants example_services [])
      failing_writer = Some (Inl e')"
  proof (rule mp [OF failure_rejects_archive
        [where generate = "generatePatients example_constants example_services []"
          and archive = archive and writer = failing_writer and before = "[Data ''PK'']"
          and message = "''disk full''" and rest = "[End]",
          THEN conjunct2, THEN conjunct1]])
    show "generatePatients example_constants example_services [] [] = Inr archive
        \<and> during_generation failing_writer @ after_finalize failing_writer archive
            = [Data ''PK''] @ Error ''disk full'' # [End]
        \<and> End \<notin> set [Data ''PK'']"
      using generated by (simp add: failing_writer_def)
  qed
  have thrown: "addUserAppointments incomplete_services ''p0'' [] = Inl TypeError"
  proof (rule mp [OF failure_rejects_archive
        [where services = incomplete_services and userId = "''p0''"
          and appointments = "[example_appointment,
            Document ''a2'' ((content example_appointment)\<lparr>created := None\<rparr>)]"
          and a = "Document ''a2'' ((content example_appointment)\<lparr>created := None\<rparr>)",
          THEN conjunct2, THEN conjunct2, THEN conjunct2, THEN conjunct1]])
    show "userAppointments incomplete_services ''p0''
          = Inr [example_appointment,
              Document ''a2'' ((content example_appointment)\<lparr>created := None\<rparr>)]
        \<and> Document ''a2'' ((content example_appointment)\<lparr>created := None\<rparr>)
            \<in> set [example_appointment,
              Document ''a2'' ((content example_appointment)\<lparr>created := None\<rparr>)]
        \<and> created (content (Document ''a2'' ((content example_appointment)\<lparr>created := None\<rparr>)))
            = None"
      by (simp add: incomplete_services_def example_services_def)
  qed
  have rejected_projection: "\<exists>e'. createPatientsZipBuffer example_constants incomplete_services
      example_writer [''p0''] = Some (Inl e')"
  proof (rule mp [OF failure_rejects_archive
        [where userId = "''p0''" and userIds = "[''p0'']"
          and branch = "addUserAppointments incomplete_services ''p0''"
          and constants = example_constants and services = incomplete_services
          and e = TypeError and writer = example_writer,
          THEN conjunct2, THEN conjunct2, THEN conjunct1]])
    show "''p0'' \<in> set [''p0'']
        \<and> addUserAppointments incomplete_services ''p0''
            \<in> set (userBranches example_constants incomplete_services ''p0'')
        \<and> addUserAppointments incomplete_services ''p0'' [] = Inl TypeError
        \<and> End \<notin> set (during_generation example_writer)"
      using quiet thrown by (simp add: userBranches_def)
  qed
  show ?thesis
    by (intro conjI rejected_query writer_error thrown rejected_projection)
qed


end
